theory Spec2Isabelle
  imports Complex_Main "HOL-Library.Word"
begin

unbundle bit_operations_syntax

section \<open>Track reordering (io/mark4/payload.py)\<close>

text \<open>
  The module picks one pair of definitions when it is imported, by the byte order of the
  host (\<^verbatim>\<open>sys.byteorder\<close>).  The arguments are numpy arrays of unsigned 32- or 64-bit
  integers; the functions act elementwise, so one element is a machine word.  On a word
  \<^verbatim>\<open>>>\<close> is a logical shift and \<^verbatim>\<open><<\<close> drops the bits shifted out.
\<close>

datatype byteorder = Big | Little

definition reorder32 :: "byteorder \<Rightarrow> 32 word \<Rightarrow> 32 word" where
  "reorder32 bo x =
     (case bo of
        Big \<Rightarrow> (x AND 0x55AA55AA) OR
               drop_bit 9 (x AND 0xAA00AA00) OR
               push_bit 9 (x AND 0x00550055)
      | Little \<Rightarrow> (x AND 0xAA55AA55) OR
               drop_bit 7 (x AND 0x55005500) OR
               push_bit 7 (x AND 0x00AA00AA))"

definition reorder64 :: "byteorder \<Rightarrow> 64 word \<Rightarrow> 64 word" where
  "reorder64 bo x =
     (case bo of
        Big \<Rightarrow> (x AND 0x55AA55AA55AA55AA) OR
               drop_bit 9 (x AND 0xAA00AA00AA00AA00) OR
               push_bit 9 (x AND 0x0055005500550055)
      | Little \<Rightarrow> (x AND 0xAA55AA55AA55AA55) OR
               drop_bit 7 (x AND 0x5500550055005500) OR
               push_bit 7 (x AND 0x00AA00AA00AA00AA))"

section \<open>Python values and exceptions\<close>

text \<open>
  Python integers are unbounded, so header words and field values are \<^typ>\<open>int\<close>; on
  \<^typ>\<open>int\<close> the bit operations are those of two's complement, as in Python.  An
  exception is a value of \<open>py_error\<close>; a function that can raise returns
  \<open>py_error + 'a\<close>, with \<open>Inl\<close> for the exception.  The \<^verbatim>\<open>ValueError\<close>s are told
  apart by their message; the third is numpy's, for a \<^verbatim>\<open>reshape\<close> that does not fit.
\<close>

datatype value_error = CannotBeRepresented | CannotCalculateFrameRate | CannotReshape

datatype py_error =
    ValueError value_error | IndexError | KeyError | TypeError | AssertionError
  | AttributeError | ZeroDivisionError | EOFError | IOError | UnboundLocalError

text \<open>What a field parser returns: a \<^verbatim>\<open>bool\<close> for a field one bit wide, else an integer.\<close>

datatype pyval = PBool bool | PInt int

type_synonym words = "int list"

text \<open>Indexing a tuple with a nonnegative index raises \<^verbatim>\<open>IndexError\<close> out of range.\<close>

definition getitem :: "'a list \<Rightarrow> nat \<Rightarrow> py_error + 'a" where
  "getitem xs i = (if i < length xs then Inr (xs ! i) else Inl IndexError)"

section \<open>Field parsers and setters (io/vlbi\_helpers.py)\<close>

text \<open>
  \<^verbatim>\<open>make_parser\<close> checks \<^verbatim>\<open>assert bit_index == 0\<close> for a 32-bit field when it is
  called, and otherwise returns a closure over the words.  Word index, bit index and bit
  length are nonnegative in every table of the sources, hence \<^typ>\<open>nat\<close>.
\<close>

definition make_parser ::
  "nat \<Rightarrow> nat \<Rightarrow> nat \<Rightarrow> py_error + (words \<Rightarrow> py_error + pyval)" where
  "make_parser word_index bit_index bit_length =
     (if bit_length = 1 then
        Inr (\<lambda>words. case getitem words word_index of
               Inl e \<Rightarrow> Inl e
             | Inr w \<Rightarrow> Inr (PBool ((drop_bit bit_index w AND 1) \<noteq> 0)))
      else if bit_length = 32 then
        (if bit_index \<noteq> 0 then Inl AssertionError
         else Inr (\<lambda>words. case getitem words word_index of
               Inl e \<Rightarrow> Inl e
             | Inr w \<Rightarrow> Inr (PInt w)))
      else
        (let mask = push_bit bit_length 1 - 1 in
         if bit_index = 0 then
           Inr (\<lambda>words. case getitem words word_index of
               Inl e \<Rightarrow> Inl e
             | Inr w \<Rightarrow> Inr (PInt (w AND mask)))
         else
           Inr (\<lambda>words. case getitem words word_index of
               Inl e \<Rightarrow> Inl e
             | Inr w \<Rightarrow> Inr (PInt (drop_bit bit_index w AND mask)))))"

text \<open>
  The setter.  The value is \<^verbatim>\<open>None\<close> or an integer (a \<^verbatim>\<open>bool\<close> is an integer in
  Python); \<^verbatim>\<open>int(None)\<close> raises \<^verbatim>\<open>TypeError\<close>.  The word is read before the width
  check, so a word index out of range raises \<^verbatim>\<open>IndexError\<close> first.  The result is a new
  tuple, \<^verbatim>\<open>words[:word_index] + (word,) + words[word_index+1:]\<close>.
\<close>

definition make_setter ::
  "nat \<Rightarrow> nat \<Rightarrow> nat \<Rightarrow> int option \<Rightarrow> words \<Rightarrow> int option \<Rightarrow> py_error + words" where
  "make_setter word_index bit_index bit_length dflt words value =
     (case (if value = None \<and> dflt \<noteq> None then dflt else value) of
        None \<Rightarrow> Inl TypeError
      | Some v \<Rightarrow>
         (case getitem words word_index of
            Inl e \<Rightarrow> Inl e
          | Inr word \<Rightarrow>
             (let bit_mask = push_bit bit_length 1 - 1 in
              if v AND bit_mask \<noteq> v then Inl (ValueError CannotBeRepresented)
              else
                (let bit_mask' = push_bit bit_index bit_mask;
                     word' = (word OR bit_mask') XOR bit_mask';
                     word'' = word' OR push_bit bit_index v
                 in Inr (take word_index words @ [word''] @ drop (word_index + 1) words)))))"

section \<open>Parser tables (class HeaderParser, io/vlbi\_helpers.py)\<close>

text \<open>
  A field definition is the tuple \<open>(word_index, bit_index, bit_length[, default])\<close>; a
  definition of three entries has no default (\<open>None\<close>), and \<^verbatim>\<open>False\<close> and
  \<^verbatim>\<open>True\<close> as defaults are the integers 0 and 1.  A \<^verbatim>\<open>HeaderParser\<close> is an
  \<^verbatim>\<open>OrderedDict\<close> from field name to definition: a list of pairs in insertion order,
  with each key once.  Its \<^verbatim>\<open>parsers\<close> dictionary holds \<^verbatim>\<open>make_parser\<close> of every
  definition and is updated with the items, so it is read off the items here.
\<close>

type_synonym field_def = "nat \<times> nat \<times> nat \<times> int option"

type_synonym header_parser = "(string \<times> field_def) list"

text \<open>\<^verbatim>\<open>d[k] = v\<close> on an ordered dictionary: a key it has keeps its place.\<close>

fun setitem :: "('k \<times> 'v) list \<Rightarrow> 'k \<Rightarrow> 'v \<Rightarrow> ('k \<times> 'v) list" where
  "setitem [] k v = [(k, v)]"
| "setitem ((k', v') # kvs) k v =
     (if k' = k then (k, v) # kvs else (k', v') # setitem kvs k v)"

text \<open>\<^verbatim>\<open>OrderedDict.update(other)\<close> stores the items of \<open>other\<close> in their order.\<close>

definition HeaderParser_update :: "('k \<times> 'v) list \<Rightarrow> ('k \<times> 'v) list \<Rightarrow> ('k \<times> 'v) list" where
  "HeaderParser_update self other = foldl (\<lambda>d (k, v). setitem d k v) self other"

text \<open>
  The constructor fills an empty dictionary from a sequence of pairs or from another
  table; \<^verbatim>\<open>copy()\<close> is \<^verbatim>\<open>self.__class__(self)\<close>.
\<close>

definition HeaderParser :: "('k \<times> 'v) list \<Rightarrow> ('k \<times> 'v) list" where
  "HeaderParser items = HeaderParser_update [] items"

definition HeaderParser_add :: "('k \<times> 'v) list \<Rightarrow> ('k \<times> 'v) list \<Rightarrow> ('k \<times> 'v) list" where
  "HeaderParser_add self other = HeaderParser_update (HeaderParser self) other"

text \<open>\<^verbatim>\<open>parser.keys()\<close>, and the lookups \<^verbatim>\<open>parsers[k]\<close>, \<^verbatim>\<open>setters[k]\<close>, \<^verbatim>\<open>defaults[k]\<close>.\<close>

definition keys :: "('k \<times> 'v) list \<Rightarrow> 'k list" where
  "keys d = map fst d"

definition parsers :: "header_parser \<Rightarrow> string \<Rightarrow> py_error + (words \<Rightarrow> py_error + pyval)" where
  "parsers hp k =
     (case map_of hp k of
        None \<Rightarrow> Inl KeyError
      | Some (word_index, bit_index, bit_length, dflt) \<Rightarrow>
          make_parser word_index bit_index bit_length)"

definition setters :: "header_parser \<Rightarrow> string \<Rightarrow> py_error + (words \<Rightarrow> int option \<Rightarrow> py_error + words)" where
  "setters hp k =
     (case map_of hp k of
        None \<Rightarrow> Inl KeyError
      | Some (word_index, bit_index, bit_length, dflt) \<Rightarrow>
          Inr (make_setter word_index bit_index bit_length dflt))"

definition defaults :: "header_parser \<Rightarrow> string \<Rightarrow> py_error + int option" where
  "defaults hp k =
     (case map_of hp k of
        None \<Rightarrow> Inl KeyError
      | Some (word_index, bit_index, bit_length, dflt) \<Rightarrow> Inr dflt)"

section \<open>File handles and the struct codecs\<close>

text \<open>
  A file handle is the bytes of the file and a position.  \<^verbatim>\<open>read(n)\<close> returns the bytes
  that are left, at most \<open>n\<close>, and moves past them; \<^verbatim>\<open>seek(offset, 1)\<close> moves relative to
  the position and raises \<^verbatim>\<open>IOError\<close> when the result would be negative;
  \<^verbatim>\<open>seek(0)\<close> and \<^verbatim>\<open>seek(0, 2)\<close> go to the start and the end.
\<close>

record filehandle =
  contents :: "8 word list"
  pos :: nat

definition fh_read :: "filehandle \<Rightarrow> nat \<Rightarrow> 8 word list \<times> filehandle" where
  "fh_read fh n =
     (let s = take n (drop (pos fh) (contents fh))
      in (s, fh\<lparr>pos := pos fh + length s\<rparr>))"

definition fh_seek_cur :: "filehandle \<Rightarrow> int \<Rightarrow> py_error + filehandle" where
  "fh_seek_cur fh offset =
     (if int (pos fh) + offset < 0 then Inl IOError
      else Inr (fh\<lparr>pos := nat (int (pos fh) + offset)\<rparr>))"

definition fh_seek_start :: "filehandle \<Rightarrow> filehandle" where
  "fh_seek_start fh = fh\<lparr>pos := 0\<rparr>"

definition fh_seek_end :: "filehandle \<Rightarrow> filehandle" where
  "fh_seek_end fh = fh\<lparr>pos := length (contents fh)\<rparr>"

text \<open>
  \<^verbatim>\<open>struct.Struct('<8I').unpack\<close>: eight unsigned 32-bit little-endian words from 32
  bytes.  The caller has checked the length.
\<close>

definition le_word :: "8 word list \<Rightarrow> int" where
  "le_word bs = foldr (\<lambda>b acc. uint b + 256 * acc) bs 0"

definition eight_word_struct_unpack :: "8 word list \<Rightarrow> words" where
  "eight_word_struct_unpack s = map (\<lambda>i. le_word (take 4 (drop (4 * i) s))) [0..<8]"

section \<open>VDIF headers (io/vdif/header.py)\<close>

text \<open>
  The extended data version of a header object is \<^verbatim>\<open>None\<close>, \<^verbatim>\<open>False\<close> (a legacy
  header) or an integer.  The header classes that \<^verbatim>\<open>vdif_header_classes\<close> can give are
  listed; \<^verbatim>\<open>VDIFSampleRateHeader\<close> is only a base class of three of them.
\<close>

datatype edv_val = EdvNone | EdvFalse | EdvInt int

datatype vdif_class =
    VDIFLegacyHeader | VDIFBaseHeader | VDIFHeader1 | VDIFHeader2 | VDIFHeader3
  | VDIFHeader4 | VDIFMark5BHeader

record header =
  h_class :: vdif_class
  h_words :: words
  h_edv :: edv_val

text \<open>
  \<^verbatim>\<open>VDIFMark5BHeader\<close> also derives from \<^verbatim>\<open>Mark5BHeader\<close>, whose module is not among
  the sources.  What the VDIF code takes from it is a parameter: its parser table, the
  outcome of the assertion on the two times in \<^verbatim>\<open>VDIFMark5BHeader.verify\<close>, and the
  attributes \<^verbatim>\<open>seconds\<close> and \<^verbatim>\<open>framerate\<close> as a header object inherits them from it
  (\<^verbatim>\<open>AttributeError\<close> where it has none).
\<close>

record mark5b_code =
  Mark5BHeader_header_parser :: header_parser
  Mark5B_time_assertion :: "words \<Rightarrow> py_error + unit"
  Mark5BHeader_seconds :: "words \<Rightarrow> py_error + int"
  Mark5BHeader_framerate :: "words \<Rightarrow> py_error + rat"

definition VDIFLegacyHeader_header_parser :: header_parser where
  "VDIFLegacyHeader_header_parser = HeaderParser
     [(''invalid_data'', (0, 31, 1, Some 0)),
      (''legacy_mode'', (0, 30, 1, Some 1)),
      (''seconds'', (0, 0, 30, None)),
      (''_1_30_2'', (1, 30, 2, Some 0)),
      (''ref_epoch'', (1, 24, 6, None)),
      (''frame_nr'', (1, 0, 24, Some 0)),
      (''vdif_version'', (2, 29, 3, Some 1)),
      (''lg2_nchan'', (2, 24, 5, None)),
      (''frame_length'', (2, 0, 24, None)),
      (''complex_data'', (3, 31, 1, None)),
      (''bits_per_sample'', (3, 26, 5, None)),
      (''thread_id'', (3, 16, 10, Some 0)),
      (''station_id'', (3, 0, 16, None))]"

definition VDIFBaseHeader_header_parser :: header_parser where
  "VDIFBaseHeader_header_parser =
     HeaderParser_add VDIFLegacyHeader_header_parser (HeaderParser
       [(''legacy_mode'', (0, 30, 1, Some 0)),
        (''edv'', (4, 24, 8, None))])"

definition VDIFSampleRateHeader_header_parser :: header_parser where
  "VDIFSampleRateHeader_header_parser =
     HeaderParser_add VDIFBaseHeader_header_parser (HeaderParser
       [(''sampling_unit'', (4, 23, 1, None)),
        (''sample_rate'', (4, 0, 23, None)),
        (''sync_pattern'', (5, 0, 32, Some 0xACABFEED))])"

definition VDIFHeader1_header_parser :: header_parser where
  "VDIFHeader1_header_parser =
     HeaderParser_add VDIFSampleRateHeader_header_parser (HeaderParser
       [(''das_id'', (6, 0, 64, Some 0))])"

definition VDIFHeader3_header_parser :: header_parser where
  "VDIFHeader3_header_parser =
     HeaderParser_add VDIFSampleRateHeader_header_parser (HeaderParser
       [(''frame_length'', (2, 0, 24, Some 629)),
        (''loif_tuning'', (6, 0, 32, Some 0)),
        (''_7_28_4'', (7, 28, 4, Some 0)),
        (''dbe_unit'', (7, 24, 4, Some 0)),
        (''if_nr'', (7, 20, 4, Some 0)),
        (''subband'', (7, 17, 3, Some 0)),
        (''sideband'', (7, 16, 1, Some 0)),
        (''major_rev'', (7, 12, 4, Some 0)),
        (''minor_rev'', (7, 8, 4, Some 0)),
        (''personality'', (7, 0, 8, None))])"

definition VDIFHeader2_header_parser :: header_parser where
  "VDIFHeader2_header_parser =
     HeaderParser_add VDIFBaseHeader_header_parser (HeaderParser
       [(''complex_data'', (3, 31, 1, Some 0)),
        (''bits_per_sample'', (3, 26, 5, Some 1)),
        (''pol'', (4, 0, 1, None)),
        (''BL_quadrant'', (4, 1, 2, None)),
        (''BL_correlator'', (4, 3, 1, None)),
        (''sync_pattern'', (4, 4, 20, Some 0xa5ea5)),
        (''PIC_status'', (5, 0, 32, None)),
        (''PSN'', (6, 0, 64, None))])"

definition VDIFMark5BHeader_header_parser :: "mark5b_code \<Rightarrow> header_parser" where
  "VDIFMark5BHeader_header_parser m5 =
     HeaderParser_add
       (HeaderParser_add VDIFBaseHeader_header_parser
          (HeaderParser [(''frame_length'', (2, 0, 24, Some 1254))]))
       (HeaderParser (map (\<lambda>(k, (w, rest)). (k, (w + 4, rest)))
                          (Mark5BHeader_header_parser m5)))"

text \<open>\<^verbatim>\<open>self._header_parser\<close> and \<^verbatim>\<open>self._struct.size\<close>, by class.\<close>

definition header_parser_of :: "mark5b_code \<Rightarrow> vdif_class \<Rightarrow> header_parser" where
  "header_parser_of m5 c =
     (case c of
        VDIFLegacyHeader \<Rightarrow> VDIFLegacyHeader_header_parser
      | VDIFBaseHeader \<Rightarrow> VDIFBaseHeader_header_parser
      | VDIFHeader1 \<Rightarrow> VDIFHeader1_header_parser
      | VDIFHeader2 \<Rightarrow> VDIFHeader2_header_parser
      | VDIFHeader3 \<Rightarrow> VDIFHeader3_header_parser
      | VDIFHeader4 \<Rightarrow> VDIFSampleRateHeader_header_parser
      | VDIFMark5BHeader \<Rightarrow> VDIFMark5BHeader_header_parser m5)"

definition struct_size :: "vdif_class \<Rightarrow> int" where
  "struct_size c = (case c of VDIFLegacyHeader \<Rightarrow> 16 | _ \<Rightarrow> 32)"

text \<open>\<^verbatim>\<open>header[item]\<close> and \<^verbatim>\<open>header[item] = value\<close>; the latter returns the header changed.\<close>

definition header_getitem :: "mark5b_code \<Rightarrow> header \<Rightarrow> string \<Rightarrow> py_error + pyval" where
  "header_getitem m5 self item =
     (case parsers (header_parser_of m5 (h_class self)) item of
        Inl e \<Rightarrow> Inl e
      | Inr parser \<Rightarrow> parser (h_words self))"

definition header_setitem ::
  "mark5b_code \<Rightarrow> header \<Rightarrow> string \<Rightarrow> int option \<Rightarrow> py_error + header" where
  "header_setitem m5 self item value =
     (case setters (header_parser_of m5 (h_class self)) item of
        Inl e \<Rightarrow> Inl e
      | Inr setter \<Rightarrow>
          (case setter (h_words self) value of
             Inl e \<Rightarrow> Inl e
           | Inr ws \<Rightarrow> Inr (self\<lparr>h_words := ws\<rparr>)))"

text \<open>Truth value and integer value of what a parser returned (\<^verbatim>\<open>True\<close> is 1).\<close>

definition truthy :: "pyval \<Rightarrow> bool" where
  "truthy x = (case x of PBool b \<Rightarrow> b | PInt n \<Rightarrow> n \<noteq> 0)"

definition int_of :: "pyval \<Rightarrow> int" where
  "int_of x = (case x of PBool b \<Rightarrow> (if b then 1 else 0) | PInt n \<Rightarrow> n)"

text \<open>
  The two module-level parsers, taken from the table of \<^verbatim>\<open>VDIFBaseHeader\<close>, and the
  class registry.  A dictionary looks a key up by hash and \<^verbatim>\<open>==\<close>, and in Python
  \<^verbatim>\<open>0 == False\<close> with the same hash: the integer 0 finds the entry of \<^verbatim>\<open>False\<close>.
\<close>

definition is_legacy_header :: "words \<Rightarrow> py_error + pyval" where
  "is_legacy_header ws =
     (case parsers VDIFBaseHeader_header_parser ''legacy_mode'' of
        Inl e \<Rightarrow> Inl e | Inr parser \<Rightarrow> parser ws)"

definition get_header_edv :: "words \<Rightarrow> py_error + pyval" where
  "get_header_edv ws =
     (case parsers VDIFBaseHeader_header_parser ''edv'' of
        Inl e \<Rightarrow> Inl e | Inr parser \<Rightarrow> parser ws)"

definition vdif_header_classes_get :: "edv_val \<Rightarrow> vdif_class" where
  "vdif_header_classes_get e =
     (case e of
        EdvNone \<Rightarrow> VDIFBaseHeader
      | EdvFalse \<Rightarrow> VDIFLegacyHeader
      | EdvInt n \<Rightarrow>
          (if n = 0 then VDIFLegacyHeader
           else if n = 1 then VDIFHeader1
           else if n = 2 then VDIFHeader2
           else if n = 3 then VDIFHeader3
           else if n = 4 then VDIFHeader4
           else if n = 0xab then VDIFMark5BHeader
           else VDIFBaseHeader))"

text \<open>
  \<^verbatim>\<open>VDIFHeader.__new__(cls, words, edv, verify)\<close>: picks the class and stores the extended
  data version it used in the new object.
\<close>

definition VDIFHeader_new :: "words \<Rightarrow> edv_val \<Rightarrow> py_error + header" where
  "VDIFHeader_new ws e =
     (case (if e = EdvNone then
              (case is_legacy_header ws of
                 Inl err \<Rightarrow> Inl err
               | Inr legacy \<Rightarrow>
                   if truthy legacy then Inr EdvFalse
                   else (case get_header_edv ws of
                           Inl err \<Rightarrow> Inl err
                         | Inr v \<Rightarrow> Inr (EdvInt (int_of v))))
            else Inr e) of
        Inl err \<Rightarrow> Inl err
      | Inr e' \<Rightarrow> Inr \<lparr>h_class = vdif_header_classes_get e', h_words = ws, h_edv = e'\<rparr>)"

text \<open>
  The \<^verbatim>\<open>__init__\<close> methods; \<open>e\<close> is the \<^verbatim>\<open>edv\<close> argument of the call, which Python
  hands to \<^verbatim>\<open>__init__\<close> as it was given to the class, not the value \<^verbatim>\<open>__new__\<close> chose.
  The legacy class tests \<^verbatim>\<open>self.edv is not None\<close>, the base class \<^verbatim>\<open>edv is not None\<close>.
  Verification is the last step and is modelled by the caller.
\<close>

definition VDIFLegacyHeader_init :: "header \<Rightarrow> edv_val \<Rightarrow> header" where
  "VDIFLegacyHeader_init self e = (if h_edv self \<noteq> EdvNone then self\<lparr>h_edv := e\<rparr> else self)"

definition VDIFBaseHeader_init :: "header \<Rightarrow> edv_val \<Rightarrow> header" where
  "VDIFBaseHeader_init self e = (if e \<noteq> EdvNone then self\<lparr>h_edv := e\<rparr> else self)"

definition header_init :: "header \<Rightarrow> edv_val \<Rightarrow> header" where
  "header_init self e =
     (case h_class self of
        VDIFLegacyHeader \<Rightarrow> VDIFLegacyHeader_init self e
      | _ \<Rightarrow> VDIFBaseHeader_init self e)"

text \<open>Semantic properties read by the verification and by the frame code.\<close>

definition framesize :: "mark5b_code \<Rightarrow> header \<Rightarrow> py_error + int" where
  "framesize m5 self =
     (case header_getitem m5 self ''frame_length'' of
        Inl e \<Rightarrow> Inl e | Inr v \<Rightarrow> Inr (int_of v * 8))"

definition payloadsize :: "mark5b_code \<Rightarrow> header \<Rightarrow> py_error + int" where
  "payloadsize m5 self =
     (case framesize m5 self of
        Inl e \<Rightarrow> Inl e | Inr n \<Rightarrow> Inr (n - struct_size (h_class self)))"

definition bps :: "mark5b_code \<Rightarrow> header \<Rightarrow> py_error + int" where
  "bps m5 self =
     (case header_getitem m5 self ''bits_per_sample'' of
        Inl e \<Rightarrow> Inl e
      | Inr b \<Rightarrow>
          (case header_getitem m5 self ''complex_data'' of
             Inl e \<Rightarrow> Inl e
           | Inr c \<Rightarrow> Inr (if truthy c then (int_of b + 1) * 2 else int_of b + 1)))"

definition nchan :: "mark5b_code \<Rightarrow> header \<Rightarrow> py_error + int" where
  "nchan m5 self =
     (case header_getitem m5 self ''lg2_nchan'' of
        Inl e \<Rightarrow> Inl e | Inr v \<Rightarrow> Inr (2 ^ nat (int_of v)))"

text \<open>Python's \<^verbatim>\<open>==\<close> between the stored extended data version and a field value.\<close>

definition edv_eq :: "edv_val \<Rightarrow> pyval \<Rightarrow> bool" where
  "edv_eq e v =
     (case e of EdvNone \<Rightarrow> False | EdvFalse \<Rightarrow> int_of v = 0 | EdvInt n \<Rightarrow> n = int_of v)"

text \<open>An \<^verbatim>\<open>assert\<close> statement on a value that may itself raise.\<close>

definition assert :: "py_error + bool \<Rightarrow> py_error + unit" where
  "assert c = (case c of Inl e \<Rightarrow> Inl e | Inr b \<Rightarrow> if b then Inr () else Inl AssertionError)"

definition andthen :: "py_error + unit \<Rightarrow> py_error + unit \<Rightarrow> py_error + unit" where
  "andthen a b = (case a of Inl e \<Rightarrow> Inl e | Inr u \<Rightarrow> b)"

definition item_is :: "mark5b_code \<Rightarrow> header \<Rightarrow> string \<Rightarrow> (pyval \<Rightarrow> bool) \<Rightarrow> py_error + bool" where
  "item_is m5 self item P =
     (case header_getitem m5 self item of Inl e \<Rightarrow> Inl e | Inr v \<Rightarrow> Inr (P v))"

text \<open>The \<^verbatim>\<open>verify\<close> methods, each assertion in the order of the source.\<close>

definition VDIFLegacyHeader_verify :: "mark5b_code \<Rightarrow> header \<Rightarrow> py_error + unit" where
  "VDIFLegacyHeader_verify m5 self =
     andthen (assert (Inr (h_edv self = EdvFalse)))
    (andthen (assert (item_is m5 self ''legacy_mode'' truthy))
             (assert (Inr (length (h_words self) = 4))))"

definition VDIFBaseHeader_verify :: "mark5b_code \<Rightarrow> header \<Rightarrow> py_error + unit" where
  "VDIFBaseHeader_verify m5 self =
     andthen (assert (item_is m5 self ''legacy_mode'' (\<lambda>v. \<not> truthy v)))
    (andthen (assert (item_is m5 self ''edv'' (edv_eq (h_edv self))))
    (andthen (assert (Inr (length (h_words self) = 8)))
       (if ''sync_pattern'' \<in> set (keys (header_parser_of m5 (h_class self))) then
          (case defaults (header_parser_of m5 (h_class self)) ''sync_pattern'' of
             Inl e \<Rightarrow> Inl e
           | Inr d \<Rightarrow> assert (item_is m5 self ''sync_pattern''
                                 (\<lambda>v. d \<noteq> None \<and> int_of v = the d)))
        else Inr ())))"

definition VDIFHeader3_verify :: "mark5b_code \<Rightarrow> header \<Rightarrow> py_error + unit" where
  "VDIFHeader3_verify m5 self =
     andthen (VDIFBaseHeader_verify m5 self)
             (assert (item_is m5 self ''frame_length'' (\<lambda>v. int_of v = 629)))"

definition VDIFHeader2_verify :: "mark5b_code \<Rightarrow> header \<Rightarrow> py_error + unit" where
  "VDIFHeader2_verify m5 self =
     andthen (VDIFBaseHeader_verify m5 self)
    (andthen (assert (item_is m5 self ''frame_length'' (\<lambda>v. int_of v = 629 \<or> int_of v = 1004)))
       (assert (case bps m5 self of
                  Inl e \<Rightarrow> Inl e
                | Inr b \<Rightarrow> if b = 2 then item_is m5 self ''complex_data'' (\<lambda>v. \<not> truthy v)
                           else Inr False)))"

definition VDIFMark5BHeader_verify :: "mark5b_code \<Rightarrow> header \<Rightarrow> py_error + unit" where
  "VDIFMark5BHeader_verify m5 self =
     andthen (VDIFBaseHeader_verify m5 self)
    (andthen (assert (item_is m5 self ''frame_length'' (\<lambda>v. int_of v = 1254)))
             (Mark5B_time_assertion m5 (h_words self)))"

definition verify :: "mark5b_code \<Rightarrow> header \<Rightarrow> py_error + unit" where
  "verify m5 self =
     (case h_class self of
        VDIFLegacyHeader \<Rightarrow> VDIFLegacyHeader_verify m5 self
      | VDIFBaseHeader \<Rightarrow> VDIFBaseHeader_verify m5 self
      | VDIFHeader1 \<Rightarrow> VDIFBaseHeader_verify m5 self
      | VDIFHeader2 \<Rightarrow> VDIFHeader2_verify m5 self
      | VDIFHeader3 \<Rightarrow> VDIFHeader3_verify m5 self
      | VDIFHeader4 \<Rightarrow> VDIFBaseHeader_verify m5 self
      | VDIFMark5BHeader \<Rightarrow> VDIFMark5BHeader_verify m5 self)"

text \<open>
  The call \<^verbatim>\<open>cls(words, edv, verify=...)\<close> on \<^verbatim>\<open>VDIFHeader\<close>: \<^verbatim>\<open>__new__\<close>, then the
  \<^verbatim>\<open>__init__\<close> of the class of the new object with the same arguments.
\<close>

definition VDIFHeader_call :: "mark5b_code \<Rightarrow> words \<Rightarrow> edv_val \<Rightarrow> bool \<Rightarrow> py_error + header" where
  "VDIFHeader_call m5 ws e vfy =
     (case VDIFHeader_new ws e of
        Inl err \<Rightarrow> Inl err
      | Inr self0 \<Rightarrow>
          (let self = header_init self0 e in
           if vfy then (case verify m5 self of Inl err \<Rightarrow> Inl err | Inr u \<Rightarrow> Inr self)
           else Inr self))"

text \<open>
  \<^verbatim>\<open>VDIFHeader.fromfile(fh, edv, verify)\<close>.  The result is the header or the exception,
  together with the file handle as the call leaves it.
\<close>

definition VDIFHeader_fromfile ::
  "mark5b_code \<Rightarrow> filehandle \<Rightarrow> edv_val \<Rightarrow> bool \<Rightarrow> (py_error + header) \<times> filehandle" where
  "VDIFHeader_fromfile m5 fh e vfy =
     (let (s, fh1) = fh_read fh 32 in
      if length s \<noteq> 32 then (Inl EOFError, fh1)
      else
        (case VDIFHeader_call m5 (eight_word_struct_unpack s) e False of
           Inl err \<Rightarrow> (Inl err, fh1)
         | Inr self \<Rightarrow>
             (case (if h_edv self = EdvFalse then
                      (case fh_seek_cur fh1 (- 16) of
                         Inl err \<Rightarrow> Inl err
                       | Inr fh2 \<Rightarrow> Inr (self\<lparr>h_words := take 4 (h_words self)\<rparr>, fh2))
                    else Inr (self, fh1)) of
                Inl err \<Rightarrow> (Inl err, fh1)
              | Inr (self', fh') \<Rightarrow>
                  if vfy then
                    (case verify m5 self' of
                       Inl err \<Rightarrow> (Inl err, fh')
                     | Inr u \<Rightarrow> (Inr self', fh'))
                  else (Inr self', fh'))))"

section \<open>Frame-rate inference (get\_frame\_rate, io/vlbi\_helpers.py)\<close>

text \<open>
  \<^verbatim>\<open>get_frame_rate(fh, header_class, thread_id=None)\<close> works with any header class.  What
  it uses of the class and of its header objects is a record: \<^verbatim>\<open>fromfile\<close>,
  \<^verbatim>\<open>header[item]\<close>, the attribute \<^verbatim>\<open>header.seconds\<close>, \<^verbatim>\<open>item in header\<close> and
  \<^verbatim>\<open>header.payloadsize\<close>.
\<close>

record 'h header_class =
  hc_fromfile :: "filehandle \<Rightarrow> (py_error + 'h) \<times> filehandle"
  hc_getitem :: "'h \<Rightarrow> string \<Rightarrow> py_error + pyval"
  hc_seconds :: "'h \<Rightarrow> py_error + int"
  hc_contains :: "'h \<Rightarrow> string \<Rightarrow> bool"
  hc_payloadsize :: "'h \<Rightarrow> py_error + int"

text \<open>
  The result of a run: the value returned or the exception, whether the warning was
  issued, and the file handle.  The two \<^verbatim>\<open>while\<close> loops need not end (a payload size
  can be negative), so they take fuel and return \<open>None\<close> when it runs out.
\<close>

text \<open>\<^verbatim>\<open>fh.seek(header.payloadsize, 1); header = header_class.fromfile(fh)\<close>\<close>

definition skip_payload_read_header ::
  "'h header_class \<Rightarrow> filehandle \<Rightarrow> 'h \<Rightarrow> (py_error + 'h) \<times> filehandle" where
  "skip_payload_read_header hc fh header =
     (case hc_payloadsize hc header of
        Inl e \<Rightarrow> (Inl e, fh)
      | Inr n \<Rightarrow>
          (case fh_seek_cur fh n of
             Inl e \<Rightarrow> (Inl e, fh)
           | Inr fh1 \<Rightarrow> hc_fromfile hc fh1))"

text \<open>\<^verbatim>\<open>while header['frame_nr'] == 0:\<close>\<close>

fun frame_rate_loop1 ::
  "nat \<Rightarrow> 'h header_class \<Rightarrow> filehandle \<Rightarrow> 'h \<Rightarrow> ((py_error + 'h) \<times> filehandle) option" where
  "frame_rate_loop1 0 hc fh header = None"
| "frame_rate_loop1 (Suc fuel) hc fh header =
     (case hc_getitem hc header ''frame_nr'' of
        Inl e \<Rightarrow> Some (Inl e, fh)
      | Inr v \<Rightarrow>
          if int_of v = 0 then
            (case skip_payload_read_header hc fh header of
               (Inl e, fh1) \<Rightarrow> Some (Inl e, fh1)
             | (Inr header', fh1) \<Rightarrow> frame_rate_loop1 fuel hc fh1 header')
          else Some (Inr header, fh))"

text \<open>
  \<^verbatim>\<open>while header['frame_nr'] > 0: max_frame = header['frame_nr']; ...\<close>  The local
  \<^verbatim>\<open>max_frame\<close> is unbound (\<open>None\<close>) until the body has run once.
\<close>

fun frame_rate_loop2 ::
  "nat \<Rightarrow> 'h header_class \<Rightarrow> filehandle \<Rightarrow> 'h \<Rightarrow> int option \<Rightarrow>
     ((py_error + 'h \<times> int option) \<times> filehandle) option" where
  "frame_rate_loop2 0 hc fh header max_frame = None"
| "frame_rate_loop2 (Suc fuel) hc fh header max_frame =
     (case hc_getitem hc header ''frame_nr'' of
        Inl e \<Rightarrow> Some (Inl e, fh)
      | Inr v \<Rightarrow>
          if int_of v > 0 then
            (case hc_getitem hc header ''frame_nr'' of
               Inl e \<Rightarrow> Some (Inl e, fh)
             | Inr v' \<Rightarrow>
                 (case skip_payload_read_header hc fh header of
                    (Inl e, fh1) \<Rightarrow> Some (Inl e, fh1)
                  | (Inr header', fh1) \<Rightarrow>
                      frame_rate_loop2 fuel hc fh1 header' (Some (int_of v'))))
          else Some (Inr (header, max_frame), fh))"

record frame_rate_result =
  returned :: "py_error + int"
  warned :: bool

definition get_frame_rate ::
  "nat \<Rightarrow> filehandle \<Rightarrow> 'h header_class \<Rightarrow> int option \<Rightarrow>
     (frame_rate_result \<times> filehandle) option" where
  "get_frame_rate fuel fh hc thread_id =
     (case hc_fromfile hc (fh_seek_start fh) of
        (Inl e, fh1) \<Rightarrow> Some (\<lparr>returned = Inl e, warned = False\<rparr>, fh1)
      | (Inr header, fh1) \<Rightarrow>
     (case assert (case hc_getitem hc header ''frame_nr'' of
                     Inl e \<Rightarrow> Inl e | Inr v \<Rightarrow> Inr (int_of v = 0)) of
        Inl e \<Rightarrow> Some (\<lparr>returned = Inl e, warned = False\<rparr>, fh1)
      | Inr u \<Rightarrow>
     (case hc_seconds hc header of
        Inl e \<Rightarrow> Some (\<lparr>returned = Inl e, warned = False\<rparr>, fh1)
      | Inr sec0 \<Rightarrow>
     (case (if thread_id = None \<and> hc_contains hc header ''thread_id''
            then (case hc_getitem hc header ''thread_id'' of
                    Inl e \<Rightarrow> Inl e | Inr v \<Rightarrow> Inr (Some (int_of v)))
            else Inr thread_id) of
        Inl e \<Rightarrow> Some (\<lparr>returned = Inl e, warned = False\<rparr>, fh1)
      | Inr thread_id' \<Rightarrow>
     (case frame_rate_loop1 fuel hc fh1 header of
        None \<Rightarrow> None
      | Some (Inl e, fh2) \<Rightarrow> Some (\<lparr>returned = Inl e, warned = False\<rparr>, fh2)
      | Some (Inr header1, fh2) \<Rightarrow>
     (case frame_rate_loop2 fuel hc fh2 header1 None of
        None \<Rightarrow> None
      | Some (Inl e, fh3) \<Rightarrow> Some (\<lparr>returned = Inl e, warned = False\<rparr>, fh3)
      | Some (Inr (header2, max_frame), fh3) \<Rightarrow>
     (case hc_seconds hc header2 of
        Inl e \<Rightarrow> Some (\<lparr>returned = Inl e, warned = False\<rparr>, fh3)
      | Inr sec \<Rightarrow>
          Some (\<lparr>returned = (case max_frame of
                                None \<Rightarrow> Inl UnboundLocalError
                              | Some m \<Rightarrow> Inr (m + 1)),
                 warned = (sec \<noteq> sec0 + 1)\<rparr>, fh3))))))))"

text \<open>
  The VDIF headers as a header class.  No class of io/vdif/header.py defines an attribute
  \<^verbatim>\<open>seconds\<close> (the seconds are the item \<^verbatim>\<open>header['seconds']\<close>), and
  \<^verbatim>\<open>VLBIHeaderBase\<close> has no \<^verbatim>\<open>__getattr__\<close>; only \<^verbatim>\<open>VDIFMark5BHeader\<close> can inherit one,
  from \<^verbatim>\<open>Mark5BHeader\<close>.
\<close>

definition VDIFHeader_seconds :: "mark5b_code \<Rightarrow> header \<Rightarrow> py_error + int" where
  "VDIFHeader_seconds m5 self =
     (case h_class self of
        VDIFMark5BHeader \<Rightarrow> Mark5BHeader_seconds m5 (h_words self)
      | _ \<Rightarrow> Inl AttributeError)"

definition VDIFHeader_class :: "mark5b_code \<Rightarrow> header header_class" where
  "VDIFHeader_class m5 =
     \<lparr>hc_fromfile = (\<lambda>fh. VDIFHeader_fromfile m5 fh EdvNone True),
      hc_getitem = header_getitem m5,
      hc_seconds = VDIFHeader_seconds m5,
      hc_contains = (\<lambda>self item. item \<in> set (keys (header_parser_of m5 (h_class self)))),
      hc_payloadsize = payloadsize m5\<rparr>"

section \<open>VDIF frame sets (VDIFFrameSet.fromfile, io/vdif/frame.py)\<close>

text \<open>
  The payload module and \<^verbatim>\<open>VLBIFrameBase\<close> are not among the sources.  A frame is the
  pair of its header and payload; reading a payload, and the check a frame runs on
  construction when \<^verbatim>\<open>verify\<close> is set, are parameters.
\<close>

record 'p frame =
  f_header :: header
  f_payload :: 'p

record 'p frame_code =
  VDIFPayload_fromfile :: "filehandle \<Rightarrow> header \<Rightarrow> (py_error + 'p) \<times> filehandle"
  VDIFFrame_verify :: "header \<Rightarrow> 'p \<Rightarrow> py_error + unit"

definition VDIFFrame :: "'p frame_code \<Rightarrow> header \<Rightarrow> 'p \<Rightarrow> bool \<Rightarrow> py_error + 'p frame" where
  "VDIFFrame fc hdr payload vfy =
     (case (if vfy then VDIFFrame_verify fc hdr payload else Inr ()) of
        Inl e \<Rightarrow> Inl e
      | Inr u \<Rightarrow> Inr \<lparr>f_header = hdr, f_payload = payload\<rparr>)"

record 'p frameset =
  frames :: "'p frame list"
  header0 :: header

text \<open>
  The local variable \<^verbatim>\<open>exc\<close>.  It starts as \<^verbatim>\<open>None\<close>; \<^verbatim>\<open>except EOFError as exc\<close>
  binds it to the exception.  Python 2 leaves it bound after the handler, and a bare
  \<^verbatim>\<open>raise\<close> later in the function raises the exception handled last.  Python 3 deletes
  the name when the handler is left, so reading it afterwards raises
  \<^verbatim>\<open>UnboundLocalError\<close>.  The interpreter is a parameter.
\<close>

datatype python = Python2 | Python3

datatype exc_var = ExcNone | ExcBound py_error | ExcUnbound

definition after_handler :: "python \<Rightarrow> py_error \<Rightarrow> exc_var" where
  "after_handler py e = (case py of Python2 \<Rightarrow> ExcBound e | Python3 \<Rightarrow> ExcUnbound)"

text \<open>
  The \<^verbatim>\<open>while ... else\<close> loop.  It ends by \<^verbatim>\<open>break\<close> in the handler of
  \<^verbatim>\<open>EOFError\<close>, after \<^verbatim>\<open>fh.seek(0, 2)\<close>, or by the \<^verbatim>\<open>else\<close> branch when the frame number
  differs, after \<^verbatim>\<open>fh.seek(-header.size, 1)\<close>; any other exception leaves the function.
  It need not end (a payload size can be negative), so it takes fuel.
\<close>

fun frameset_loop ::
  "nat \<Rightarrow> python \<Rightarrow> mark5b_code \<Rightarrow> 'p frame_code \<Rightarrow> int list option \<Rightarrow> edv_val \<Rightarrow> bool \<Rightarrow>
   header \<Rightarrow> filehandle \<Rightarrow> header \<Rightarrow> 'p frame list \<Rightarrow>
   ((py_error + 'p frame list \<times> exc_var) \<times> filehandle) option" where
  "frameset_loop 0 py m5 fc thread_ids e vfy hdr0 fh hdr frs = None"
| "frameset_loop (Suc fuel) py m5 fc thread_ids e vfy hdr0 fh hdr frs =
     (case header_getitem m5 hdr ''frame_nr'' of
        Inl err \<Rightarrow> Some (Inl err, fh)
      | Inr a \<Rightarrow>
     (case header_getitem m5 hdr0 ''frame_nr'' of
        Inl err \<Rightarrow> Some (Inl err, fh)
      | Inr b \<Rightarrow>
     if int_of a \<noteq> int_of b then
       (case fh_seek_cur fh (- struct_size (h_class hdr)) of
          Inl err \<Rightarrow> Some (Inl err, fh)
        | Inr fh1 \<Rightarrow> Some (Inr (frs, ExcNone), fh1))
     else
     (case (case thread_ids of
              None \<Rightarrow> Inr True
            | Some ids \<Rightarrow>
                (case header_getitem m5 hdr ''thread_id'' of
                   Inl err \<Rightarrow> Inl err
                 | Inr t \<Rightarrow> Inr (int_of t \<in> set ids))) of
        Inl err \<Rightarrow> Some (Inl err, fh)
      | Inr wanted \<Rightarrow>
     (case (if wanted then
              (case VDIFPayload_fromfile fc fh hdr of
                 (Inl err, fh1) \<Rightarrow> (Inl err, fh1)
               | (Inr payload, fh1) \<Rightarrow>
                   (case VDIFFrame fc hdr payload vfy of
                      Inl err \<Rightarrow> (Inl err, fh1)
                    | Inr fr \<Rightarrow> (Inr (frs @ [fr]), fh1)))
            else
              (case payloadsize m5 hdr of
                 Inl err \<Rightarrow> (Inl err, fh)
               | Inr n \<Rightarrow>
                   (case fh_seek_cur fh n of
                      Inl err \<Rightarrow> (Inl err, fh)
                    | Inr fh1 \<Rightarrow> (Inr frs, fh1)))) of
        (Inl err, fh1) \<Rightarrow> Some (Inl err, fh1)
      | (Inr frs', fh1) \<Rightarrow>
     (case VDIFHeader_fromfile m5 fh1 e vfy of
        (Inl err, fh2) \<Rightarrow>
          if err = EOFError then Some (Inr (frs', after_handler py err), fh_seek_end fh2)
          else Some (Inl err, fh2)
      | (Inr hdr', fh2) \<Rightarrow>
          frameset_loop fuel py m5 fc thread_ids e vfy hdr0 fh2 hdr' frs')))))"

text \<open>
  The statements after the loop: the default for \<^verbatim>\<open>thread_ids\<close>, the test on the number
  of frames, the stable sort by \<^verbatim>\<open>frame['thread_id']\<close> (which computes every key first,
  so an item that cannot be read raises before anything moves), and the result.
\<close>

definition thread_id_key :: "mark5b_code \<Rightarrow> 'p frame \<Rightarrow> py_error + int" where
  "thread_id_key m5 fr =
     (case header_getitem m5 (f_header fr) ''thread_id'' of
        Inl err \<Rightarrow> Inl err | Inr t \<Rightarrow> Inr (int_of t))"

fun first_error :: "(py_error + 'a) list \<Rightarrow> py_error option" where
  "first_error [] = None"
| "first_error (Inl err # xs) = Some err"
| "first_error (Inr x # xs) = first_error xs"

definition key_value :: "py_error + int \<Rightarrow> int" where
  "key_value k = (case k of Inl err \<Rightarrow> 0 | Inr n \<Rightarrow> n)"

definition frames_sort :: "mark5b_code \<Rightarrow> 'p frame list \<Rightarrow> py_error + 'p frame list" where
  "frames_sort m5 frs =
     (case first_error (map (thread_id_key m5) frs) of
        Some err \<Rightarrow> Inl err
      | None \<Rightarrow> Inr (sort_key (\<lambda>fr. key_value (thread_id_key m5 fr)) frs))"

definition frameset_finish ::
  "python \<Rightarrow> mark5b_code \<Rightarrow> int list option \<Rightarrow> bool \<Rightarrow> header \<Rightarrow> 'p frame list \<Rightarrow> exc_var \<Rightarrow>
   py_error + 'p frameset" where
  "frameset_finish py m5 thread_ids do_sort hdr0 frs exc =
     (let n_ids = (case thread_ids of
                     None \<Rightarrow> min (length frs) 1
                   | Some ids \<Rightarrow> length ids)
      in
      if length frs < n_ids then
        (case exc of
           ExcUnbound \<Rightarrow> Inl UnboundLocalError
         | ExcBound err \<Rightarrow> Inl err
         | ExcNone \<Rightarrow> Inl IOError)
      else
        (case (if do_sort then frames_sort m5 frs else Inr frs) of
           Inl err \<Rightarrow> Inl err
         | Inr frs' \<Rightarrow> Inr \<lparr>frames = frs', header0 = hdr0\<rparr>))"

definition VDIFFrameSet_fromfile ::
  "nat \<Rightarrow> python \<Rightarrow> mark5b_code \<Rightarrow> 'p frame_code \<Rightarrow> filehandle \<Rightarrow> int list option \<Rightarrow> bool \<Rightarrow>
   edv_val \<Rightarrow> bool \<Rightarrow> ((py_error + 'p frameset) \<times> filehandle) option" where
  "VDIFFrameSet_fromfile fuel py m5 fc fh thread_ids do_sort e vfy =
     (case VDIFHeader_fromfile m5 fh e vfy of
        (Inl err, fh1) \<Rightarrow> Some (Inl err, fh1)
      | (Inr hdr0, fh1) \<Rightarrow>
          (case frameset_loop fuel py m5 fc thread_ids (h_edv hdr0) vfy hdr0 fh1 hdr0 [] of
             None \<Rightarrow> None
           | Some (Inl err, fh2) \<Rightarrow> Some (Inl err, fh2)
           | Some (Inr (frs, exc), fh2) \<Rightarrow>
               Some (frameset_finish py m5 thread_ids do_sort hdr0 frs exc, fh2)))"

text \<open>The frame number of a header as an integer, when the item can be read.\<close>

definition frame_nr_of :: "mark5b_code \<Rightarrow> header \<Rightarrow> int option" where
  "frame_nr_of m5 hdr =
     (case header_getitem m5 hdr ''frame_nr'' of Inl err \<Rightarrow> None | Inr v \<Rightarrow> Some (int_of v))"

definition thread_id_of :: "mark5b_code \<Rightarrow> header \<Rightarrow> int option" where
  "thread_id_of m5 hdr =
     (case header_getitem m5 hdr ''thread_id'' of Inl err \<Rightarrow> None | Inr v \<Rightarrow> Some (int_of v))"

text \<open>What the loop keeps true of the frames it has collected.\<close>

definition collected_ok :: "mark5b_code \<Rightarrow> int list option \<Rightarrow> header \<Rightarrow> 'p frame \<Rightarrow> bool" where
  "collected_ok m5 thread_ids hdr0 fr =
     (frame_nr_of m5 (f_header fr) \<noteq> None \<and>
      frame_nr_of m5 (f_header fr) = frame_nr_of m5 hdr0 \<and>
      (case thread_ids of
         None \<Rightarrow> True
       | Some ids \<Rightarrow> (case thread_id_of m5 (f_header fr) of
                        None \<Rightarrow> False | Some t \<Rightarrow> t \<in> set ids)))"

text \<open>
  Instances of the two parameters, for running the code on concrete files.  The Mark 5B
  part is empty.  The payload reader does what \<^verbatim>\<open>Mark4Payload.fromfile\<close> of
  io/mark4/payload.py does, \<^verbatim>\<open>s = fh.read(header.payloadsize)\<close> and \<^verbatim>\<open>EOFError\<close> when
  \<^verbatim>\<open>len(s) < header.payloadsize\<close>, and keeps the bytes; the frame check accepts.
\<close>

definition no_mark5b :: mark5b_code where
  "no_mark5b =
     \<lparr>Mark5BHeader_header_parser = [],
      Mark5B_time_assertion = (\<lambda>ws. Inr ()),
      Mark5BHeader_seconds = (\<lambda>ws. Inl AttributeError),
      Mark5BHeader_framerate = (\<lambda>ws. Inl AttributeError)\<rparr>"

definition bytes_payload :: "mark5b_code \<Rightarrow> 8 word list frame_code" where
  "bytes_payload m5 =
     \<lparr>VDIFPayload_fromfile = (\<lambda>fh hdr.
        case payloadsize m5 hdr of
          Inl err \<Rightarrow> (Inl err, fh)
        | Inr n \<Rightarrow>
            (case fh_read fh (if n < 0 then length (contents fh) else nat n) of
               (s, fh1) \<Rightarrow> if int (length s) < n then (Inl EOFError, fh1) else (Inr s, fh1))),
      VDIFFrame_verify = (\<lambda>hdr payload. Inr ())\<rparr>"

section \<open>Writing the time of a VDIF header (VDIFHeader.set\_time)\<close>

text \<open>
  \<^verbatim>\<open>set_time\<close> computes with astropy's \<^verbatim>\<open>Time\<close>, \<^verbatim>\<open>TimeDelta\<close> and \<^verbatim>\<open>Quantity\<close>, which
  hold double-precision numbers, and with Python's true division.  What these operations
  return is decided by the floating-point arithmetic of a library that is not part of the
  repository, so each operation that \<^verbatim>\<open>set_time\<close> and \<^verbatim>\<open>framerate\<close> apply is a parameter;
  nothing is assumed about it.  A double that the code turns into an integer or compares
  with 0 is given by its value, a rational number.

  \<^item> \<open>Time_gt a b\<close> is \<^verbatim>\<open>a > b\<close> on two \<^verbatim>\<open>Time\<close>s;
  \<^item> \<open>Time_sub a b\<close> is \<^verbatim>\<open>a - b\<close>, a \<^verbatim>\<open>TimeDelta\<close>;
  \<^item> \<open>TimeDelta_sec d\<close> is \<^verbatim>\<open>d.sec\<close>, a double;
  \<^item> \<open>TimeDelta_sub_seconds d n\<close> is \<^verbatim>\<open>d - n * u.s\<close> for an integer \<open>n\<close>;
  \<^item> \<open>TimeDelta_abs_lt_2ns d\<close> is \<^verbatim>\<open>abs(d) < 2. * u.ns\<close>;
  \<^item> \<open>TimeDelta_times_rate d f\<close> is \<^verbatim>\<open>(d * f).to(u.one).value\<close>, a double, for a
    \<^verbatim>\<open>Quantity\<close> \<open>f\<close> with the units of a frequency;
  \<^item> \<open>int_truediv a b\<close> is \<^verbatim>\<open>a / b\<close> on two integers, \<open>b\<close> not 0, a double;
  \<^item> \<open>Quantity_Hz x\<close> is \<^verbatim>\<open>u.Quantity(x, u.Hz)\<close>.
\<close>

record ('t, 'd, 'q) astropy =
  Time_gt :: "'t \<Rightarrow> 't \<Rightarrow> bool"
  Time_sub :: "'t \<Rightarrow> 't \<Rightarrow> 'd"
  TimeDelta_sec :: "'d \<Rightarrow> rat"
  TimeDelta_sub_seconds :: "'d \<Rightarrow> int \<Rightarrow> 'd"
  TimeDelta_abs_lt_2ns :: "'d \<Rightarrow> bool"
  TimeDelta_times_rate :: "'d \<Rightarrow> 'q \<Rightarrow> rat"
  int_truediv :: "int \<Rightarrow> int \<Rightarrow> rat"
  Quantity_Hz :: "rat \<Rightarrow> 'q"

text \<open>
  \<^verbatim>\<open>samples_per_frame\<close> and, for the classes derived from \<^verbatim>\<open>VDIFSampleRateHeader\<close>, the
  property \<^verbatim>\<open>framerate\<close>; the other classes of the file have no such attribute.  The
  division in \<^verbatim>\<open>framerate\<close> is a true division (\<^verbatim>\<open>from __future__ import division\<close>) of
  two integers and raises \<^verbatim>\<open>ZeroDivisionError\<close> on zero.
\<close>

definition samples_per_frame :: "mark5b_code \<Rightarrow> header \<Rightarrow> py_error + int" where
  "samples_per_frame m5 self =
     (case bps m5 self of
        Inl e \<Rightarrow> Inl e
      | Inr b \<Rightarrow>
          if b = 0 then Inl ZeroDivisionError
          else
            (case payloadsize m5 self of
               Inl e \<Rightarrow> Inl e
             | Inr p \<Rightarrow>
                 (case nchan m5 self of
                    Inl e \<Rightarrow> Inl e
                  | Inr n \<Rightarrow>
                      if n = 0 then Inl ZeroDivisionError
                      else Inr (p div 4 * (32 div b) div n))))"

definition VDIFSampleRateHeader_framerate ::
  "('t, 'd, 'q) astropy \<Rightarrow> mark5b_code \<Rightarrow> header \<Rightarrow> py_error + 'q" where
  "VDIFSampleRateHeader_framerate ap m5 self =
     (case header_getitem m5 self ''sample_rate'' of
        Inl e \<Rightarrow> Inl e
      | Inr rate \<Rightarrow>
     (case header_getitem m5 self ''sampling_unit'' of
        Inl e \<Rightarrow> Inl e
      | Inr unit \<Rightarrow>
     (case nchan m5 self of
        Inl e \<Rightarrow> Inl e
      | Inr n \<Rightarrow>
     (case samples_per_frame m5 self of
        Inl e \<Rightarrow> Inl e
      | Inr spf \<Rightarrow>
          if spf = 0 then Inl ZeroDivisionError
          else Inr (Quantity_Hz ap
                 (int_truediv ap
                    (int_of rate * (if truthy unit then 1000000 else 1000) * 2 * n) spf))))))"

definition framerate_attr ::
  "('t, 'd, 'q) astropy \<Rightarrow> mark5b_code \<Rightarrow> header \<Rightarrow> py_error + 'q" where
  "framerate_attr ap m5 self =
     (case h_class self of
        VDIFHeader1 \<Rightarrow> VDIFSampleRateHeader_framerate ap m5 self
      | VDIFHeader3 \<Rightarrow> VDIFSampleRateHeader_framerate ap m5 self
      | VDIFHeader4 \<Rightarrow> VDIFSampleRateHeader_framerate ap m5 self
      | VDIFMark5BHeader \<Rightarrow>
          (case Mark5BHeader_framerate m5 (h_words self) of
             Inl e \<Rightarrow> Inl e
           | Inr x \<Rightarrow> Inr (Quantity_Hz ap x))
      | _ \<Rightarrow> Inl AttributeError)"

text \<open>
  \<^verbatim>\<open>ref_epochs\<close> is built when the module is imported, from the current date: it is a
  parameter, a list of \<^verbatim>\<open>Time\<close>s.

  \<^verbatim>\<open>np.searchsorted(a, 0)\<close> on an ascending array of doubles is the number of entries
  below 0.  An index of \<open>-1\<close> into \<^verbatim>\<open>ref_epochs\<close> is its last entry.  \<^verbatim>\<open>int(x)\<close> truncates
  the double \<open>x\<close> towards zero.  \<^verbatim>\<open>round(x)\<close> of a double rounds its value to the nearest
  integer, a half away from zero under Python 2 and to the even neighbour under Python 3.
\<close>

definition searchsorted :: "rat list \<Rightarrow> rat \<Rightarrow> nat" where
  "searchsorted a v = length (takeWhile (\<lambda>x. x < v) a)"

definition getitem_int :: "'a list \<Rightarrow> int \<Rightarrow> py_error + 'a" where
  "getitem_int xs i =
     (if 0 \<le> i then getitem xs (nat i)
      else if - int (length xs) \<le> i then getitem xs (nat (int (length xs) + i))
      else Inl IndexError)"

definition py_int :: "rat \<Rightarrow> int" where
  "py_int x = (if x \<ge> 0 then \<lfloor>x\<rfloor> else \<lceil>x\<rceil>)"

definition py_round :: "python \<Rightarrow> rat \<Rightarrow> int" where
  "py_round py x =
     (case py of
        Python2 \<Rightarrow> (if x \<ge> 0 then \<lfloor>x + 1 / 2\<rfloor> else \<lceil>x - 1 / 2\<rceil>)
      | Python3 \<Rightarrow>
          (let f = \<lfloor>x\<rfloor>; d = x - of_int f in
           if d < 1 / 2 then f
           else if d > 1 / 2 then f + 1
           else if even f then f else f + 1))"

text \<open>
  \<^verbatim>\<open>set_time(self, time, framerate=None)\<close>.  The header is changed field by field, so the
  result is the header as the call leaves it and the exception, if one was raised.
\<close>

definition VDIFHeader_set_time ::
  "python \<Rightarrow> ('t, 'd, 'q) astropy \<Rightarrow> mark5b_code \<Rightarrow> 't list \<Rightarrow> header \<Rightarrow> 't \<Rightarrow> 'q option \<Rightarrow>
   py_error option \<times> header" where
  "VDIFHeader_set_time py ap m5 ref_epochs self time framerate =
     (case getitem ref_epochs 0 of
        Inl e \<Rightarrow> (Some e, self)
      | Inr epoch0 \<Rightarrow>
     if \<not> Time_gt ap time epoch0 then (Some AssertionError, self)
     else
     (let ref_index =
            int (searchsorted (map (\<lambda>ep. TimeDelta_sec ap (Time_sub ap ep time)) ref_epochs) 0)
              - 1 in
      case header_setitem m5 self ''ref_epoch'' (Some ref_index) of
        Inl e \<Rightarrow> (Some e, self)
      | Inr self1 \<Rightarrow>
     (case getitem_int ref_epochs ref_index of
        Inl e \<Rightarrow> (Some e, self1)
      | Inr epoch \<Rightarrow>
     (let seconds = Time_sub ap time epoch;
          int_sec = py_int (TimeDelta_sec ap seconds) in
      case header_setitem m5 self1 ''seconds'' (Some int_sec) of
        Inl e \<Rightarrow> (Some e, self1)
      | Inr self2 \<Rightarrow>
     (let frac_sec = TimeDelta_sub_seconds ap seconds int_sec in
      if TimeDelta_abs_lt_2ns ap frac_sec then
        (case header_setitem m5 self2 ''frame_nr'' (Some 0) of
           Inl e \<Rightarrow> (Some e, self2)
         | Inr self3 \<Rightarrow> (None, self3))
      else
        (case (case framerate of
                 Some f \<Rightarrow> Inr f
               | None \<Rightarrow>
                   (case framerate_attr ap m5 self2 of
                      Inl e \<Rightarrow> if e = AttributeError
                               then Inl (ValueError CannotCalculateFrameRate) else Inl e
                    | Inr f \<Rightarrow> Inr f)) of
           Inl e \<Rightarrow> (Some e, self2)
         | Inr f \<Rightarrow>
             (case header_setitem m5 self2 ''frame_nr''
                     (Some (py_round py (TimeDelta_times_rate ap frac_sec f))) of
                Inl e \<Rightarrow> (Some e, self2)
              | Inr self3 \<Rightarrow> (None, self3))))))))"

text \<open>
  An instance of the operations in which every result is exact: a \<^verbatim>\<open>Time\<close> is a rational
  number of seconds on one continuous scale, a \<^verbatim>\<open>TimeDelta\<close> a rational number of
  seconds and a frame rate a rational number of Hz.  It serves to run \<^verbatim>\<open>set_time\<close> on
  concrete inputs; it is what the double-precision operations return where their results
  are exactly representable, and no more is claimed of it.
\<close>

definition exact_astropy :: "(rat, rat, rat) astropy" where
  "exact_astropy =
     \<lparr>Time_gt = (\<lambda>a b. b < a),
      Time_sub = (\<lambda>a b. a - b),
      TimeDelta_sec = (\<lambda>d. d),
      TimeDelta_sub_seconds = (\<lambda>d n. d - of_int n),
      TimeDelta_abs_lt_2ns = (\<lambda>d. \<bar>d\<bar> < 2 / 1000000000),
      TimeDelta_times_rate = (\<lambda>d f. d * f),
      int_truediv = (\<lambda>a b. of_int a / of_int b),
      Quantity_Hz = (\<lambda>x. x)\<rparr>"

text \<open>
  Names for the proofs about \<^verbatim>\<open>set_time\<close>: the word a successful setter writes, and the
  value a parser of an integer field reads.
\<close>

definition field_written :: "nat \<Rightarrow> nat \<Rightarrow> int \<Rightarrow> int \<Rightarrow> int" where
  "field_written bi bl w v =
     ((w OR push_bit bi (mask bl)) XOR push_bit bi (mask bl)) OR push_bit bi v"

definition field_read :: "nat \<Rightarrow> nat \<Rightarrow> int \<Rightarrow> int" where
  "field_read bi bl w = drop_bit bi w AND mask bl"

section \<open>The 8-channel, 2-bit, fan-out 4 payload codec (io/mark4/payload.py)\<close>

text \<open>
  A sample is a number; the four levels are \<open>\<plusminus>1\<close> and \<open>\<plusminus>3.3359\<close> (the constant
  \<^verbatim>\<open>OPTIMAL_2BIT_HIGH\<close>), held exactly as rationals where the source holds them in single
  precision.  An array of shape \<open>(m, 8)\<close> is the list of its rows.
\<close>

definition OPTIMAL_2BIT_HIGH :: rat where
  "OPTIMAL_2BIT_HIGH = 33359 / 10000"

definition lut4level :: "rat list" where
  "lut4level = [- OPTIMAL_2BIT_HIGH, 1, - 1, OPTIMAL_2BIT_HIGH]"

text \<open>
  \<^verbatim>\<open>lut2bit1\<close> of \<^verbatim>\<open>init_luts\<close>: for a byte \<open>b\<close> and \<open>i = 0, \<dots>, 3\<close> the level at index
  \<^verbatim>\<open>(b >> 2*i & 1) + (b >> 2*i+1 & 1) * 2\<close>.
\<close>

definition lut2bit1 :: "8 word \<Rightarrow> rat list" where
  "lut2bit1 b =
     map (\<lambda>i. lut4level ! (unat (drop_bit (2 * i) b AND 1) +
                            unat (drop_bit (2 * i + 1) b AND 1) * 2))
         [0..<4]"

text \<open>
  \<^verbatim>\<open>.view(np.uint8)\<close> of an unsigned 64-bit word and \<^verbatim>\<open>.view(np.uint64)\<close> of a flat
  array of bytes, in the byte order of the host.
\<close>

definition view_uint8 :: "byteorder \<Rightarrow> 64 word \<Rightarrow> 8 word list" where
  "view_uint8 bo w =
     (let bs = map (\<lambda>i. ucast (drop_bit (8 * i) w)) [0..<8]
      in case bo of Little \<Rightarrow> bs | Big \<Rightarrow> rev bs)"

definition word_of_bytes :: "byteorder \<Rightarrow> 8 word list \<Rightarrow> 64 word" where
  "word_of_bytes bo bs =
     foldr (\<lambda>b acc. ucast b OR push_bit 8 acc) (case bo of Little \<Rightarrow> bs | Big \<Rightarrow> rev bs) 0"

definition view_uint64 :: "byteorder \<Rightarrow> 8 word list \<Rightarrow> 64 word list" where
  "view_uint64 bo bs =
     map (\<lambda>k. word_of_bytes bo (take 8 (drop (8 * k) bs))) [0..<length bs div 8]"

text \<open>The channel order \<^verbatim>\<open>[0, 2, 1, 3, 4, 6, 5, 7]\<close> and the bit order \<^verbatim>\<open>[0, 2, 1, 3]\<close>.\<close>

definition reorder_channels :: "nat list" where
  "reorder_channels = [0, 2, 1, 3, 4, 6, 5, 7]"

definition reorder_bits :: "8 word list" where
  "reorder_bits = [0, 2, 1, 3]"

text \<open>
  \<^verbatim>\<open>decode_8chan_2bit_fanout4(frame)\<close>, without an output buffer.  The steps are those of
  the source: reorder the tracks and view the words as rows of 8 bytes; take the columns
  in channel order; transpose to shape \<open>(8, n)\<close>; look every byte up, which gives shape
  \<open>(8, n, 4)\<close>; reshape to \<open>(8, 4n)\<close>; transpose to \<open>(4n, 8)\<close>.
\<close>

definition decode_8chan_2bit_fanout4 :: "byteorder \<Rightarrow> 64 word list \<Rightarrow> rat list list" where
  "decode_8chan_2bit_fanout4 bo frame =
     (let bytes = map (\<lambda>w. view_uint8 bo (reorder64 bo w)) frame;
          taken = map (\<lambda>row. map (\<lambda>j. row ! j) reorder_channels) bytes;
          frame_T = map (\<lambda>c. map (\<lambda>row. row ! c) taken) [0..<8];
          looked = map (map lut2bit1) frame_T;
          reshaped = map concat looked
      in map (\<lambda>t. map (\<lambda>c. reshaped ! c ! t) [0..<8]) [0..<length (reshaped ! 0)])"

text \<open>
  \<^verbatim>\<open>encode_8chan_2bit_fanout4(values)\<close>.  \<^verbatim>\<open>encode_2bit_real_base\<close> is imported from a
  module that is not among the sources: it is the parameter \<open>enc\<close>, applied to every
  sample and returning an unsigned byte.  Indexing the columns raises \<^verbatim>\<open>IndexError\<close>
  when a row has fewer than 8 entries, the reshape to \<open>(-1, 4, 8)\<close> raises
  \<^verbatim>\<open>ValueError\<close> when the number of rows is not a multiple of 4, and
  \<^verbatim>\<open>reorder_bits.take\<close> raises \<^verbatim>\<open>IndexError\<close> on a value above 3.
\<close>

definition encode_8chan_2bit_fanout4 ::
  "byteorder \<Rightarrow> (rat \<Rightarrow> 8 word) \<Rightarrow> rat list list \<Rightarrow> py_error + 64 word list" where
  "encode_8chan_2bit_fanout4 bo enc values =
     (if \<exists>row \<in> set values. length row < 8 then Inl IndexError
      else if length values mod 4 \<noteq> 0 then Inl (ValueError CannotReshape)
      else
        (let picked = map (\<lambda>row. map (\<lambda>j. row ! j) reorder_channels) values;
             grouped = map (\<lambda>k. take 4 (drop (4 * k) picked)) [0..<length picked div 4];
             transposed = map (\<lambda>g. map (\<lambda>c. map (\<lambda>row. row ! c) g) [0..<8]) grouped;
             bitvalues = map (map (map enc)) transposed
         in
         if \<exists>g \<in> set bitvalues. \<exists>q \<in> set g. \<exists>b \<in> set q. 4 \<le> unat b then Inl IndexError
         else
           (let reordered = map (map (map (\<lambda>b. reorder_bits ! unat b))) bitvalues;
                shifted = map (map (\<lambda>q. map (\<lambda>(b, s). push_bit s b) (zip q [0, 2, 4, 6])))
                              reordered;
                bytes = map (map (\<lambda>q. foldr (OR) q 0)) shifted
            in Inr (map (reorder64 bo) (view_uint64 bo (concat bytes))))))"

text \<open>
  An encoder of single samples that sends the four levels, in ascending order, to
  0, 1, 2, 3, and the levels between them to the nearest.
\<close>

definition nearest_level_index :: "rat \<Rightarrow> 8 word" where
  "nearest_level_index v =
     (if v < - (OPTIMAL_2BIT_HIGH + 1) / 2 then 0
      else if v < 0 then 1
      else if v < (OPTIMAL_2BIT_HIGH + 1) / 2 then 2
      else 3)"

(*DEFS*)

section \<open>Properties of the track reordering\<close>

lemma all_less_numeral:
  "(\<forall>n < numeral k. P (n::nat)) = (P (pred_numeral k) \<and> (\<forall>n < pred_numeral k. P n))"
  by (metis less_Suc_eq numeral_eq_Suc)

lemma all_less_32:
  "(\<forall>n<32. P (n::nat)) = (P 31 \<and> P 30 \<and> P 29 \<and> P 28 \<and> P 27 \<and> P 26 \<and> P 25 \<and> P 24 \<and> P 23 \<and> P 22 \<and> P 21 \<and> P 20 \<and> P 19 \<and> P 18 \<and> P 17 \<and> P 16 \<and> P 15 \<and> P 14 \<and> P 13 \<and> P 12 \<and> P 11 \<and> P 10 \<and> P 9 \<and> P 8 \<and> P 7 \<and> P 6 \<and> P 5 \<and> P 4 \<and> P 3 \<and> P 2 \<and> P 1 \<and> P 0)"
  by (simp add: all_less_numeral)

lemma all_less_64:
  "(\<forall>n<64. P (n::nat)) = (P 63 \<and> P 62 \<and> P 61 \<and> P 60 \<and> P 59 \<and> P 58 \<and> P 57 \<and> P 56 \<and> P 55 \<and> P 54 \<and> P 53 \<and> P 52 \<and> P 51 \<and> P 50 \<and> P 49 \<and> P 48 \<and> P 47 \<and> P 46 \<and> P 45 \<and> P 44 \<and> P 43 \<and> P 42 \<and> P 41 \<and> P 40 \<and> P 39 \<and> P 38 \<and> P 37 \<and> P 36 \<and> P 35 \<and> P 34 \<and> P 33 \<and> P 32 \<and> P 31 \<and> P 30 \<and> P 29 \<and> P 28 \<and> P 27 \<and> P 26 \<and> P 25 \<and> P 24 \<and> P 23 \<and> P 22 \<and> P 21 \<and> P 20 \<and> P 19 \<and> P 18 \<and> P 17 \<and> P 16 \<and> P 15 \<and> P 14 \<and> P 13 \<and> P 12 \<and> P 11 \<and> P 10 \<and> P 9 \<and> P 8 \<and> P 7 \<and> P 6 \<and> P 5 \<and> P 4 \<and> P 3 \<and> P 2 \<and> P 1 \<and> P 0)"
  by (simp add: all_less_numeral)

lemma reorder32_little_bits:
  "\<forall>n<32. bit (reorder32 Little (reorder32 Little x)) n = bit x n"
  unfolding all_less_32 reorder32_def by (simp add: bit_simps)

lemma reorder32_big_bits:
  "\<forall>n<32. bit (reorder32 Big (reorder32 Big x)) n = bit x n"
  unfolding all_less_32 reorder32_def by (simp add: bit_simps)

lemma reorder64_little_bits:
  "\<forall>n<64. bit (reorder64 Little (reorder64 Little x)) n = bit x n"
  unfolding all_less_64 reorder64_def by (simp add: bit_simps)

lemma reorder64_big_bits:
  "\<forall>n<64. bit (reorder64 Big (reorder64 Big x)) n = bit x n"
  unfolding all_less_64 reorder64_def by (simp add: bit_simps)

lemma reorder32_twice: "reorder32 bo (reorder32 bo x) = x"
proof (cases bo)
  case Big
  show ?thesis unfolding Big
    by (rule bit_word_eqI) (use reorder32_big_bits in simp)
next
  case Little
  show ?thesis unfolding Little
    by (rule bit_word_eqI) (use reorder32_little_bits in simp)
qed

lemma reorder64_twice: "reorder64 bo (reorder64 bo x) = x"
proof (cases bo)
  case Big
  show ?thesis unfolding Big
    by (rule bit_word_eqI) (use reorder64_big_bits in simp)
next
  case Little
  show ?thesis unfolding Little
    by (rule bit_word_eqI) (use reorder64_little_bits in simp)
qed

text \<open>
  Claim C10.  The track reorderings are involutions: applying \<^const>\<open>reorder64\<close> twice to
  any unsigned 64-bit word gives the word back, and likewise \<^const>\<open>reorder32\<close> on any
  unsigned 32-bit word.  On a little-endian host the two bit groups that are shifted by 7
  change places; the same holds for the big-endian pair of definitions, which shifts by 9.
\<close>

theorem reorder_involution:
  "reorder64 Little (reorder64 Little x) = x \<and> reorder32 Little (reorder32 Little y) = y \<and>
   reorder64 Big (reorder64 Big x) = x \<and> reorder32 Big (reorder32 Big y) = y"
  by (simp add: reorder32_twice reorder64_twice)

text \<open>
  Claim C7, as amended.  The check recorded in the source is in decimal:
  \<^verbatim>\<open>738811025863578102 -> 738829572664316278\<close> on a little-endian host.  In hexadecimal
  these two numbers are \<^verbatim>\<open>0x0A40C8B6B0BD91F6\<close> and \<^verbatim>\<open>0x0A40D994F435D176\<close>.
\<close>

theorem reorder64_spot_check:
  "reorder64 Little 738811025863578102 = 738829572664316278 \<and>
   (738811025863578102 :: 64 word) = 0x0A40C8B6B0BD91F6 \<and>
   (738829572664316278 :: 64 word) = 0x0A40D994F435D176 \<and>
   reorder64 Little 0x0A40C8B6B0BD91F6 = 0x0A40D994F435D176"
  by (simp add: reorder64_def)

text \<open>
  Claim C7 as stated fails: \<^verbatim>\<open>0x0A40D994F435D176\<close> is the decimal check's result, not
  its argument, and \<^const>\<open>reorder64\<close> sends it back to \<^verbatim>\<open>0x0A40C8B6B0BD91F6\<close>, which
  is not \<^verbatim>\<open>0x0A40D99894F435B6\<close>.
\<close>

theorem reorder64_spot_check_hex_counterexample:
  "reorder64 Little 0x0A40D994F435D176 \<noteq> 0x0A40D99894F435B6"
  by (simp add: reorder64_def)

section \<open>Properties of the field setters and parsers\<close>

text \<open>The word a successful setter writes, for a value that fits the mask.\<close>

lemma bit_set_field:
  fixes v w :: int
  assumes "v AND mask bl = v"
  shows "bit (((w OR push_bit bi (mask bl)) XOR push_bit bi (mask bl)) OR push_bit bi v) n =
           (if bi \<le> n \<and> n < bi + bl then bit v (n - bi) else bit w n)"
proof -
  have v: "bit v m \<Longrightarrow> m < bl" for m
    using assms by (metis bit_and_iff bit_mask_iff)
  show ?thesis
    using v[of "n - bi"] by (auto simp add: bit_simps)
qed

lemma read_set_field:
  fixes v w :: int
  assumes "v AND mask bl = v"
  shows "drop_bit bi (((w OR push_bit bi (mask bl)) XOR push_bit bi (mask bl)) OR push_bit bi v)
           AND mask bl = v"
proof (rule bit_eqI)
  fix n
  have v: "bit v m \<Longrightarrow> m < bl" for m
    using assms by (metis bit_and_iff bit_mask_iff)
  show "bit (drop_bit bi (((w OR push_bit bi (mask bl)) XOR push_bit bi (mask bl))
              OR push_bit bi v) AND mask bl) n = bit v n"
    using v[of n] by (auto simp add: bit_simps bit_set_field[OF assms])
qed

lemma make_setter_fits:
  assumes "wi < length words" "v AND mask bl = v"
  shows "make_setter wi bi bl d words (Some v) =
           Inr (words[wi := ((words ! wi OR push_bit bi (mask bl)) XOR push_bit bi (mask bl))
                               OR push_bit bi v])"
  using assms
  by (simp add: make_setter_def getitem_def mask_eq_exp_minus_1 Let_def upd_conv_take_nth_drop)

lemma make_setter_overflow:
  assumes "wi < length words" "v AND mask bl \<noteq> v"
  shows "make_setter wi bi bl d words (Some v) = Inl (ValueError CannotBeRepresented)"
  using assms
  by (simp add: make_setter_def getitem_def mask_eq_exp_minus_1 Let_def)

lemma make_parser_reads:
  assumes "wi < length ws" "bl = 32 \<longrightarrow> bi = 0 \<and> 0 \<le> ws ! wi \<and> ws ! wi < 2 ^ 32"
  shows "\<exists>p. make_parser wi bi bl = Inr p \<and>
       p ws = Inr (if bl = 1 then PBool (drop_bit bi (ws ! wi) AND mask bl \<noteq> 0)
                   else PInt (drop_bit bi (ws ! wi) AND mask bl))"
proof -
  have "w AND mask 32 = w" if "0 \<le> w" "w < 2 ^ 32" for w :: int
    using that by (simp add: take_bit_int_eq_self flip: take_bit_eq_mask)
  then show ?thesis using assms
    by (auto simp add: make_parser_def getitem_def mask_eq_exp_minus_1 Let_def)
qed

text \<open>
  Claim C2.  Take a field \<open>(word_index, bit_index, bit_length)\<close>, a word tuple that has
  the word, and a value \<open>v\<close> with \<^verbatim>\<open>v & ((1 << bit_length) - 1) == v\<close>.  The setter
  returns a tuple of the same length that agrees with the input on every bit outside
  bits \<open>bit_index \<dots> bit_index + bit_length - 1\<close> of word \<open>word_index\<close>, and the
  parser of the same field reads \<open>v\<close> back from it, as a \<^verbatim>\<open>bool\<close> when the field is
  one bit wide.  A field 32 bits wide starts at bit 0 in every table (\<^verbatim>\<open>make_parser\<close>
  asserts it) and its parser returns the whole word, so there the word written to is a
  32-bit unsigned value, as every header word unpacked from bytes is.
\<close>

theorem setter_isolation_readback:
  assumes "word_index < length words"
      and "v AND (push_bit bit_length 1 - 1) = v"
      and "bit_length = 32 \<longrightarrow>
             bit_index = 0 \<and> 0 \<le> words ! word_index \<and> words ! word_index < 2 ^ 32"
  shows "\<exists>words' parser.
           make_setter word_index bit_index bit_length dflt words (Some v) = Inr words' \<and>
           length words' = length words \<and>
           (\<forall>j n. j < length words \<and>
                  \<not> (j = word_index \<and> bit_index \<le> n \<and> n < bit_index + bit_length) \<longrightarrow>
                  bit (words' ! j) n = bit (words ! j) n) \<and>
           make_parser word_index bit_index bit_length = Inr parser \<and>
           parser words' = Inr (if bit_length = 1 then PBool (v \<noteq> 0) else PInt v)"
proof -
  let ?w = "((words ! word_index OR push_bit bit_index (mask bit_length)) XOR
              push_bit bit_index (mask bit_length)) OR push_bit bit_index v"
  let ?ws = "words[word_index := ?w]"
  have fits: "v AND mask bit_length = v"
    using assms(2) by (simp add: mask_eq_exp_minus_1)
  have wr: "make_setter word_index bit_index bit_length dflt words (Some v) = Inr ?ws"
    using assms(1) fits by (rule make_setter_fits)
  have frame: "bit (?ws ! j) n = bit (words ! j) n"
    if "j < length words" "\<not> (j = word_index \<and> bit_index \<le> n \<and> n < bit_index + bit_length)"
    for j n
  proof (cases "j = word_index")
    case True
    then show ?thesis using that assms(1) by (auto simp add: bit_set_field[OF fits])
  next
    case False
    then show ?thesis by simp
  qed
  have rdb: "drop_bit bit_index (?ws ! word_index) AND mask bit_length = v"
    unfolding nth_list_update_eq[OF assms(1)] by (rule read_set_field[OF fits])
  have w32: "bit_length = 32 \<longrightarrow> bit_index = 0 \<and> 0 \<le> ?ws ! word_index \<and> ?ws ! word_index < 2 ^ 32"
  proof
    assume b: "bit_length = 32"
    then have bi: "bit_index = 0" using assms(3) by simp
    have "?ws ! word_index = drop_bit bit_index (?ws ! word_index) AND mask bit_length"
    proof -
      have "words ! word_index AND mask 32 = words ! word_index"
        using assms(3) b by (simp add: take_bit_int_eq_self flip: take_bit_eq_mask)
      then have "bit (words ! word_index) n \<Longrightarrow> n < 32" for n
        by (metis bit_and_iff bit_mask_iff)
      moreover have "bit v n \<Longrightarrow> n < 32" for n
        using fits b by (metis bit_and_iff bit_mask_iff)
      ultimately show ?thesis
        using assms(1) b bi by (auto intro!: bit_eqI simp add: bit_simps bit_set_field[OF fits])
    qed
    then have "?ws ! word_index = v" using rdb by simp
    moreover have "0 \<le> v \<and> v < 2 ^ 32"
      using fits b by (metis take_bit_eq_mask take_bit_nonnegative take_bit_int_less_exp)
    ultimately show "bit_index = 0 \<and> 0 \<le> ?ws ! word_index \<and> ?ws ! word_index < 2 ^ 32"
      using bi by simp
  qed
  obtain p where p: "make_parser word_index bit_index bit_length = Inr p"
      "p ?ws = Inr (if bit_length = 1
                     then PBool (drop_bit bit_index (?ws ! word_index) AND mask bit_length \<noteq> 0)
                     else PInt (drop_bit bit_index (?ws ! word_index) AND mask bit_length))"
    using make_parser_reads[of word_index ?ws bit_length bit_index] assms(1) w32 by auto
  have "p ?ws = Inr (if bit_length = 1 then PBool (v \<noteq> 0) else PInt v)"
    using p(2) unfolding rdb .
  with wr frame p(1) show ?thesis by auto
qed

text \<open>The theorem of claim C2 at the \<^verbatim>\<open>ref_epoch\<close> field of a four-word header.\<close>

theorem setter_isolation_readback_witness:
  "make_setter 1 24 6 None [0, 16777215, 7, 0] (Some 33) = Inr [0, 570425343, 7, 0] \<and>
   (\<exists>parser. make_parser 1 24 6 = Inr parser \<and>
      parser [0, 570425343, 7, 0] = Inr (PInt 33))"
  using setter_isolation_readback [of 1 "[0, 16777215, 7, 0]" 33 6 24 None]
  by (simp add: make_setter_def make_parser_def getitem_def)

text \<open>
  Claim C3.  For a field of any width, a value inside the mask is written, and a value with
  a bit outside the mask raises \<^verbatim>\<open>ValueError\<close> (the spec's FieldOverflow): the setter
  returns no word tuple then, so nothing truncated is stored.
\<close>

theorem setter_width_fit:
  assumes "word_index < length words"
  shows "(v AND (push_bit bit_length 1 - 1) = v \<longrightarrow>
           (\<exists>words'. make_setter word_index bit_index bit_length dflt words (Some v) = Inr words')) \<and>
         (v AND (push_bit bit_length 1 - 1) \<noteq> v \<longrightarrow>
           make_setter word_index bit_index bit_length dflt words (Some v) =
             Inl (ValueError CannotBeRepresented))"
  using assms make_setter_fits[of word_index words v bit_length bit_index dflt]
    make_setter_overflow[of word_index words v bit_length bit_index dflt]
  by (auto simp add: mask_eq_exp_minus_1)

text \<open>The theorem of claim C3 at a six-bit field: 63 fits, 64 does not.\<close>

theorem setter_width_fit_witness:
  "(\<exists>words'. make_setter 1 24 6 None [0, 0, 0, 0] (Some 63) = Inr words') \<and>
   make_setter 1 24 6 None [0, 0, 0, 0] (Some 64) = Inl (ValueError CannotBeRepresented)"
  using setter_width_fit [of 1 "[0, 0, 0, 0]" 63 6 24 None]
    setter_width_fit [of 1 "[0, 0, 0, 0]" 64 6 24 None]
  by (simp add: make_setter_def getitem_def)

section \<open>Properties of the parser tables\<close>

lemma keys_setitem:
  "keys (setitem d k v) = (if k \<in> set (keys d) then keys d else keys d @ [k])"
  by (induction d) (force simp add: keys_def)+

lemma map_of_setitem: "map_of (setitem d k v) = (map_of d)(k \<mapsto> v)"
  by (induction d) (auto simp add: fun_eq_iff)

lemma update_Cons:
  "HeaderParser_update d ((k, v) # kvs) = HeaderParser_update (setitem d k v) kvs"
  by (simp add: HeaderParser_update_def)

lemma keys_update:
  "distinct (keys other) \<Longrightarrow>
   keys (HeaderParser_update self other) =
     keys self @ filter (\<lambda>k. k \<notin> set (keys self)) (keys other)"
proof (induction other arbitrary: self)
  case Nil
  then show ?case by (simp add: HeaderParser_update_def keys_def)
next
  case (Cons kv other)
  obtain k v where kv: "kv = (k, v)" by (cases kv)
  have d: "distinct (keys other)" and nk: "k \<notin> set (keys other)"
    using Cons.prems by (simp_all add: kv keys_def)
  have "filter (\<lambda>x. x \<noteq> k \<and> x \<notin> set (keys self)) (keys other) =
        filter (\<lambda>x. x \<notin> set (keys self)) (keys other)"
    using nk by (intro filter_cong) auto
  then show ?case
    unfolding kv update_Cons Cons.IH[OF d] keys_setitem
    by (auto simp add: keys_def)
qed

lemma map_of_update:
  "distinct (keys other) \<Longrightarrow>
   map_of (HeaderParser_update self other) = map_of self ++ map_of other"
proof (induction other arbitrary: self)
  case Nil
  then show ?case by (simp add: HeaderParser_update_def)
next
  case (Cons kv other)
  obtain k v where kv: "kv = (k, v)" by (cases kv)
  have d: "distinct (keys other)" and nk: "k \<notin> set (keys other)"
    using Cons.prems by (simp_all add: kv keys_def)
  have "map_of other k = None"
    using nk by (simp add: keys_def map_of_eq_None_iff)
  then show ?case
    unfolding kv update_Cons Cons.IH[OF d] map_of_setitem
    by (auto simp add: fun_eq_iff map_add_def split: option.splits)
qed

lemma distinct_update:
  "distinct (keys self) \<Longrightarrow> distinct (keys other) \<Longrightarrow>
   distinct (keys (HeaderParser_update self other))"
  by (auto simp add: keys_update)

lemma alist_eqI:
  "distinct (keys xs) \<Longrightarrow> keys xs = keys ys \<Longrightarrow> map_of xs = map_of ys \<Longrightarrow> xs = ys"
proof (induction xs arbitrary: ys)
  case Nil
  then show ?case by (simp add: keys_def)
next
  case (Cons x xs)
  then obtain y ys' where ys: "ys = y # ys'" by (cases ys) (auto simp add: keys_def)
  have k: "fst x = fst y" "keys xs = keys ys'" using Cons.prems(2) by (simp_all add: ys keys_def)
  have "map_of (x # xs) (fst x) = map_of (y # ys') (fst x)"
    unfolding Cons.prems(3) ys ..
  then have xy: "x = y" using k(1) by (cases x; cases y) simp
  have nx: "fst x \<notin> set (keys xs)" using Cons.prems(1) by (simp add: keys_def)
  have "map_of xs k' = map_of ys' k'" for k'
  proof (cases "k' = fst x")
    case True
    then show ?thesis using nx k(2)
      by (metis keys_def map_of_eq_None_iff set_map)
  next
    case False
    then show ?thesis
      using fun_cong[OF Cons.prems(3), of k'] ys xy by (cases x) (auto split: if_splits)
  qed
  then have "map_of xs = map_of ys'" by (simp add: fun_eq_iff)
  then have "xs = ys'"
    using Cons.IH[of ys'] Cons.prems(1) k(2) by (simp add: keys_def)
  then show ?case using xy ys by simp
qed

lemma HeaderParser_id: "distinct (keys d) \<Longrightarrow> HeaderParser d = d"
proof -
  assume d: "distinct (keys d)"
  have "distinct (keys (HeaderParser d))"
    unfolding HeaderParser_def using d by (intro distinct_update) (simp_all add: keys_def)
  moreover have "keys (HeaderParser d) = keys d"
    unfolding HeaderParser_def keys_update[OF d] by (simp add: keys_def)
  moreover have "map_of (HeaderParser d) = map_of d"
    unfolding HeaderParser_def by (simp add: map_of_update[OF d])
  ultimately show ?thesis by (rule alist_eqI)
qed

lemma add_update: "distinct (keys a) \<Longrightarrow> HeaderParser_add a b = HeaderParser_update a b"
  by (simp add: HeaderParser_add_def HeaderParser_id)

lemma update_append:
  "HeaderParser_update (HeaderParser_update a b) c = HeaderParser_update a (b @ c)"
  by (simp add: HeaderParser_update_def)

text \<open>
  Claim C6.  Parser tables are ordered dictionaries, so their keys are distinct.  For such
  tables \<open>A + B\<close> keeps the keys of \<open>A\<close> in place, appends the keys that only \<open>B\<close>
  has in the order of \<open>B\<close>, and gives every key of \<open>B\<close> the definition \<open>B\<close> has for
  it; and the merge is associative, as an equality of ordered lists of items.
\<close>

theorem merge_associative:
  assumes "distinct (keys A)" "distinct (keys B)" "distinct (keys C)"
  shows "HeaderParser_add (HeaderParser_add A B) C = HeaderParser_add A (HeaderParser_add B C) \<and>
         keys (HeaderParser_add A B) = keys A @ filter (\<lambda>k. k \<notin> set (keys A)) (keys B) \<and>
         (\<forall>k. map_of (HeaderParser_add A B) k =
                (case map_of B k of Some d \<Rightarrow> Some d | None \<Rightarrow> map_of A k))"
proof -
  have AB: "HeaderParser_add A B = HeaderParser_update A B"
    using assms(1) by (rule add_update)
  have BC: "HeaderParser_add B C = HeaderParser_update B C"
    using assms(2) by (rule add_update)
  have dAB: "distinct (keys (HeaderParser_update A B))"
    using assms(1,2) by (rule distinct_update)
  have dBC: "distinct (keys (HeaderParser_update B C))"
    using assms(2,3) by (rule distinct_update)
  let ?L = "HeaderParser_update (HeaderParser_update A B) C"
  let ?R = "HeaderParser_update A (HeaderParser_update B C)"
  have "distinct (keys ?L)"
    using dAB assms(3) by (rule distinct_update)
  moreover have "keys ?L = keys ?R"
    unfolding keys_update[OF assms(3)] keys_update[OF dBC] keys_update[OF assms(2)]
    by (auto simp add: filter_filter intro!: filter_cong)
  moreover have "map_of ?L = map_of ?R"
    unfolding map_of_update[OF assms(3)] map_of_update[OF dBC] map_of_update[OF assms(2)]
    by simp
  ultimately have "?L = ?R" by (rule alist_eqI)
  then have assoc: "HeaderParser_add (HeaderParser_add A B) C =
      HeaderParser_add A (HeaderParser_add B C)"
    unfolding AB BC add_update[OF dAB] add_update[OF assms(1)] .
  have "map_of (HeaderParser_add A B) k =
          (case map_of B k of Some d \<Rightarrow> Some d | None \<Rightarrow> map_of A k)" for k
    unfolding AB map_of_update[OF assms(2)] by (simp add: map_add_def)
  with assoc show ?thesis
    unfolding AB keys_update[OF assms(2)] by simp
qed

text \<open>
  The theorem of claim C6 at three small tables: \<open>legacy_mode\<close> is overridden in place and
  \<open>edv\<close>, overridden once more, stays where the second table appended it.
\<close>

theorem merge_associative_witness:
  "HeaderParser_add
     (HeaderParser_add
        [(''legacy_mode'', (0, 30, 1, Some 1)), (''seconds'', (0, 0, 30, None))]
        [(''legacy_mode'', (0, 30, 1, Some 0)), (''edv'', (4, 24, 8, None))])
     [(''edv'', (4, 24, 8, Some 3)), (''frame_length'', (2, 0, 24, Some 629))]
   = HeaderParser_add
       [(''legacy_mode'', (0::nat, 30::nat, 1::nat, Some (1::int))), (''seconds'', (0, 0, 30, None))]
       (HeaderParser_add
          [(''legacy_mode'', (0, 30, 1, Some 0)), (''edv'', (4, 24, 8, None))]
          [(''edv'', (4, 24, 8, Some 3)), (''frame_length'', (2, 0, 24, Some 629))]) \<and>
   HeaderParser_add
     (HeaderParser_add
        [(''legacy_mode'', (0, 30, 1, Some 1)), (''seconds'', (0, 0, 30, None))]
        [(''legacy_mode'', (0, 30, 1, Some 0)), (''edv'', (4, 24, 8, None))])
     [(''edv'', (4, 24, 8, Some 3)), (''frame_length'', (2, 0, 24, Some 629))]
   = [(''legacy_mode'', (0::nat, 30::nat, 1::nat, Some (0::int))), (''seconds'', (0, 0, 30, None)),
      (''edv'', (4, 24, 8, Some 3)), (''frame_length'', (2, 0, 24, Some 629))]"
  using merge_associative
    [of "[(''legacy_mode'', (0::nat, 30::nat, 1::nat, Some (1::int))), (''seconds'', (0, 0, 30, None))]"
        "[(''legacy_mode'', (0::nat, 30::nat, 1::nat, Some (0::int))), (''edv'', (4, 24, 8, None))]"
        "[(''edv'', (4::nat, 24::nat, 8::nat, Some (3::int))), (''frame_length'', (2, 0, 24, Some 629))]"]
  by (simp add: keys_def HeaderParser_add_def HeaderParser_def HeaderParser_update_def)

section \<open>Reading a VDIF header from a file\<close>

lemma base_legacy_mode_parser:
  "parsers VDIFBaseHeader_header_parser ''legacy_mode'' = make_parser 0 30 1"
  by (simp add: parsers_def VDIFBaseHeader_header_parser_def VDIFLegacyHeader_header_parser_def
      HeaderParser_add_def HeaderParser_def HeaderParser_update_def)

lemma is_legacy_header_bit:
  "ws \<noteq> [] \<Longrightarrow> is_legacy_header ws = Inr (PBool (bit (ws ! 0) 30))"
  by (simp add: is_legacy_header_def base_legacy_mode_parser make_parser_def getitem_def
      bit_iff_odd_drop_bit and_one_eq mod_2_eq_odd)

lemma fh_read_short:
  "length (contents fh) < pos fh + 32 \<Longrightarrow> length (fst (fh_read fh 32)) \<noteq> 32"
  by (simp add: fh_read_def Let_def)

lemma fromfile_short_read:
  assumes "length (contents fh) < pos fh + 32"
  shows "fst (VDIFHeader_fromfile m5 fh e vfy) = Inl EOFError"
  using fh_read_short[OF assms]
  by (cases "fh_read fh 32") (simp add: VDIFHeader_fromfile_def)

lemma fromfile_legacy_default_edv:
  assumes "pos fh + 32 \<le> length (contents fh)"
      and "bit (eight_word_struct_unpack (take 32 (drop (pos fh) (contents fh))) ! 0) 30"
  shows "VDIFHeader_fromfile m5 fh EdvNone vfy =
           (if vfy then Inl AssertionError
            else Inr \<lparr>h_class = VDIFLegacyHeader,
                      h_words = eight_word_struct_unpack (take 32 (drop (pos fh) (contents fh))),
                      h_edv = EdvNone\<rparr>,
            fh\<lparr>pos := pos fh + 32\<rparr>)"
proof -
  let ?s = "take 32 (drop (pos fh) (contents fh))"
  let ?ws = "eight_word_struct_unpack ?s"
  have rd: "fh_read fh 32 = (?s, fh\<lparr>pos := pos fh + 32\<rparr>)" and len: "length ?s = 32"
    using assms(1) by (auto simp add: fh_read_def Let_def min_def)
  have ne: "?ws \<noteq> []" by (simp add: eight_word_struct_unpack_def)
  have new: "VDIFHeader_new ?ws EdvNone =
      Inr \<lparr>h_class = VDIFLegacyHeader, h_words = ?ws, h_edv = EdvFalse\<rparr>"
    using assms(2)
    by (simp add: VDIFHeader_new_def is_legacy_header_bit[OF ne] truthy_def
        vdif_header_classes_get_def)
  have call: "VDIFHeader_call m5 ?ws EdvNone False =
      Inr \<lparr>h_class = VDIFLegacyHeader, h_words = ?ws, h_edv = EdvNone\<rparr>"
    by (simp add: VDIFHeader_call_def new header_init_def VDIFLegacyHeader_init_def)
  have vf: "verify m5 \<lparr>h_class = VDIFLegacyHeader, h_words = ?ws, h_edv = EdvNone\<rparr> =
      Inl AssertionError"
    by (simp add: verify_def VDIFLegacyHeader_verify_def andthen_def assert_def)
  show ?thesis
    using assms(1) by (simp add: VDIFHeader_fromfile_def rd call vf)
qed

lemma VDIFHeader_new_default_edv:
  assumes "VDIFHeader_new ws EdvNone = Inr self"
  shows "h_words self = ws \<and>
         (h_edv self = EdvFalse \<and> h_class self = VDIFLegacyHeader \<or>
          (\<exists>n. h_edv self = EdvInt n))"
  using assms
  by (auto simp add: VDIFHeader_new_def vdif_header_classes_get_def
      split: sum.splits if_splits)

lemma header_init_default_edv:
  assumes "h_edv self = EdvFalse \<and> h_class self = VDIFLegacyHeader \<or> (\<exists>n. h_edv self = EdvInt n)"
  shows "h_edv (header_init self EdvNone) \<noteq> EdvFalse \<and>
         h_words (header_init self EdvNone) = h_words self"
  using assms
  by (auto simp add: header_init_def VDIFLegacyHeader_init_def VDIFBaseHeader_init_def
      split: vdif_class.splits)

lemma fromfile_default_edv_keeps_eight_words:
  assumes "VDIFHeader_fromfile m5 fh EdvNone vfy = (Inr h, fh')"
  shows "length (h_words h) = 8 \<and> fh' = fh\<lparr>pos := pos fh + 32\<rparr>"
proof -
  obtain s fh1 where rd: "fh_read fh 32 = (s, fh1)" by (cases "fh_read fh 32")
  have len: "length s = 32"
    using assms by (auto simp add: VDIFHeader_fromfile_def rd split: if_splits)
  have fh1: "fh1 = fh\<lparr>pos := pos fh + 32\<rparr>"
    using rd len by (auto simp add: fh_read_def Let_def)
  let ?ws = "eight_word_struct_unpack s"
  obtain self where call: "VDIFHeader_call m5 ?ws EdvNone False = Inr self"
    using assms len by (auto simp add: VDIFHeader_fromfile_def rd split: sum.splits)
  then obtain self0 where new: "VDIFHeader_new ?ws EdvNone = Inr self0"
      and self: "self = header_init self0 EdvNone"
    by (auto simp add: VDIFHeader_call_def split: sum.splits)
  have "h_edv self \<noteq> EdvFalse" "h_words self = ?ws"
    using VDIFHeader_new_default_edv[OF new] header_init_default_edv[of self0] self
    by auto
  moreover have "length ?ws = 8"
    by (simp add: eight_word_struct_unpack_def)
  ultimately show ?thesis
    using assms len fh1
    by (auto simp add: VDIFHeader_fromfile_def rd call split: sum.splits if_splits)
qed

text \<open>
  Claim C4 at the input where the code leaves it.  The file holds one header of 32 bytes
  with bit 30 of word 0 set and nothing else; \<^verbatim>\<open>VDIFHeader.fromfile(fh)\<close> is called with
  its defaults \<^verbatim>\<open>edv=None, verify=True\<close>.  \<^verbatim>\<open>__new__\<close> finds the legacy bit and stores
  \<^verbatim>\<open>edv = False\<close>, but \<^verbatim>\<open>VDIFLegacyHeader.__init__\<close> tests \<^verbatim>\<open>self.edv is not None\<close> and
  overwrites it with the argument \<^verbatim>\<open>None\<close>; so \<^verbatim>\<open>self.edv is False\<close> fails in
  \<^verbatim>\<open>fromfile\<close>, nothing is truncated or rewound, and verification raises
  \<^verbatim>\<open>AssertionError\<close> with the reader 32 bytes on.  With \<^verbatim>\<open>verify=False\<close> the header comes
  back with eight words.  Only when the caller passes \<^verbatim>\<open>edv=False\<close> are the words cut to
  four and the reader moved back by 16 bytes.
\<close>

theorem fromfile_legacy_failing_input:
  "VDIFHeader_fromfile m5 \<lparr>contents = [0, 0, 0, 0x40] @ replicate 28 0, pos = 0\<rparr> EdvNone True
     = (Inl AssertionError, \<lparr>contents = [0, 0, 0, 0x40] @ replicate 28 0, pos = 32\<rparr>) \<and>
   VDIFHeader_fromfile m5 \<lparr>contents = [0, 0, 0, 0x40] @ replicate 28 0, pos = 0\<rparr> EdvNone False
     = (Inr \<lparr>h_class = VDIFLegacyHeader, h_words = [0x40000000, 0, 0, 0, 0, 0, 0, 0],
              h_edv = EdvNone\<rparr>,
        \<lparr>contents = [0, 0, 0, 0x40] @ replicate 28 0, pos = 32\<rparr>) \<and>
   VDIFHeader_fromfile m5 \<lparr>contents = [0, 0, 0, 0x40] @ replicate 28 0, pos = 0\<rparr> EdvFalse True
     = (Inr \<lparr>h_class = VDIFLegacyHeader, h_words = [0x40000000, 0, 0, 0], h_edv = EdvFalse\<rparr>,
        \<lparr>contents = [0, 0, 0, 0x40] @ replicate 28 0, pos = 16\<rparr>)"
  by code_simp

section \<open>Frame-rate inference\<close>

text \<open>
  Claim C9 at two inputs where the code leaves it.

  First, a VDIF stream read with \<^verbatim>\<open>get_frame_rate(fh, VDIFHeader)\<close>: one valid EDV 3
  header (frame length 629, sync pattern \<^verbatim>\<open>0xACABFEED\<close>) with \<^verbatim>\<open>frame_nr == 0\<close>.  The
  function reads \<^verbatim>\<open>header.seconds\<close>, an attribute no class of io/vdif/header.py has, and
  raises \<^verbatim>\<open>AttributeError\<close> instead of returning a count.

  Second, a header class whose header is two bytes, frame number and seconds, with no
  payload: on the frame numbers 0, 2, 1, 0 the function returns 2, the last number before
  the wrap plus one, where the largest number seen is 2 and the claim gives 3; on
  0, 1, 2, 0 it returns 3.  The body of the second loop assigns
  \<^verbatim>\<open>max_frame = header['frame_nr']\<close> and never compares.  In the last run the seconds
  go from 7 to 9, the warning is issued and 3 is returned all the same.
\<close>

theorem get_frame_rate_failing_inputs:
  "get_frame_rate 10
     \<lparr>contents = [0, 0, 0, 0,  0, 0, 0, 0,  0x75, 0x02, 0, 0,  0, 0, 0, 0,
                  0, 0, 0, 3,  0xED, 0xFE, 0xAB, 0xAC,  0, 0, 0, 0,  0, 0, 0, 0], pos = 0\<rparr>
     (VDIFHeader_class m5) None
   = Some (\<lparr>returned = Inl AttributeError, warned = False\<rparr>,
           \<lparr>contents = [0, 0, 0, 0,  0, 0, 0, 0,  0x75, 0x02, 0, 0,  0, 0, 0, 0,
                  0, 0, 0, 3,  0xED, 0xFE, 0xAB, 0xAC,  0, 0, 0, 0,  0, 0, 0, 0], pos = 32\<rparr>) \<and>
   (let two_byte_class =
      \<lparr>hc_fromfile = (\<lambda>fh. case fh_read fh 2 of
           (s, fh1) \<Rightarrow> if length s \<noteq> 2 then (Inl EOFError, fh1)
                      else (Inr (uint (s ! 0), uint (s ! 1)), fh1)),
       hc_getitem = (\<lambda>h item. if item = ''frame_nr'' then Inr (PInt (fst h)) else Inl KeyError),
       hc_seconds = (\<lambda>h. Inr (snd h)),
       hc_contains = (\<lambda>h item. item = ''frame_nr''),
       hc_payloadsize = (\<lambda>h. Inr 0)\<rparr>
    in
      get_frame_rate 10 \<lparr>contents = [0, 7,  2, 7,  1, 7,  0, 8], pos = 0\<rparr> two_byte_class None
        = Some (\<lparr>returned = Inr 2, warned = False\<rparr>,
                \<lparr>contents = [0, 7,  2, 7,  1, 7,  0, 8], pos = 8\<rparr>) \<and>
      get_frame_rate 10 \<lparr>contents = [0, 7,  1, 7,  2, 7,  0, 8], pos = 0\<rparr> two_byte_class None
        = Some (\<lparr>returned = Inr 3, warned = False\<rparr>,
                \<lparr>contents = [0, 7,  1, 7,  2, 7,  0, 8], pos = 8\<rparr>) \<and>
      get_frame_rate 10 \<lparr>contents = [0, 7,  1, 7,  2, 7,  0, 9], pos = 0\<rparr> two_byte_class None
        = Some (\<lparr>returned = Inr 3, warned = True\<rparr>,
                \<lparr>contents = [0, 7,  1, 7,  2, 7,  0, 9], pos = 8\<rparr>))"
  by code_simp

section \<open>Reading a VDIF frame set\<close>

lemma VDIFFrame_header: "VDIFFrame fc hdr payload vfy = Inr fr \<Longrightarrow> f_header fr = hdr"
  by (auto simp add: VDIFFrame_def split: sum.splits)

lemma frameset_loop_invariant:
  assumes "frameset_loop fuel py m5 fc thread_ids e vfy hdr0 fh hdr frs = Some (Inr (frs', exc), fh')"
      and "list_all (collected_ok m5 thread_ids hdr0) frs"
  shows "list_all (collected_ok m5 thread_ids hdr0) frs' \<and>
         (exc = ExcNone \<or>
          exc = after_handler py EOFError \<and> pos fh' = length (contents fh'))"
  using assms
proof (induction fuel arbitrary: fh hdr frs)
  case 0
  then show ?case by simp
next
  case (Suc fuel)
  obtain a where a: "header_getitem m5 hdr ''frame_nr'' = Inr a"
    using Suc.prems(1) by (cases "header_getitem m5 hdr ''frame_nr''") auto
  obtain b where b: "header_getitem m5 hdr0 ''frame_nr'' = Inr b"
    using Suc.prems(1) a by (cases "header_getitem m5 hdr0 ''frame_nr''") auto
  show ?case
  proof (cases "int_of a \<noteq> int_of b")
    case True
    then show ?thesis
      using Suc.prems a b by (auto split: sum.splits)
  next
    case False
    let ?w = "(case thread_ids of
              None \<Rightarrow> Inr True
            | Some ids \<Rightarrow>
                (case header_getitem m5 hdr ''thread_id'' of
                   Inl err \<Rightarrow> Inl err
                 | Inr t \<Rightarrow> Inr (int_of t \<in> set ids)))"
    obtain wanted where w: "?w = Inr wanted"
      using Suc.prems(1) a b False by (cases ?w) auto
    let ?step = "(if wanted then
              (case VDIFPayload_fromfile fc fh hdr of
                 (Inl err, fh1) \<Rightarrow> (Inl err, fh1)
               | (Inr payload, fh1) \<Rightarrow>
                   (case VDIFFrame fc hdr payload vfy of
                      Inl err \<Rightarrow> (Inl err, fh1)
                    | Inr fr \<Rightarrow> (Inr (frs @ [fr]), fh1)))
            else
              (case payloadsize m5 hdr of
                 Inl err \<Rightarrow> (Inl err, fh)
               | Inr n \<Rightarrow>
                   (case fh_seek_cur fh n of
                      Inl err \<Rightarrow> (Inl err, fh)
                    | Inr fh1 \<Rightarrow> (Inr frs, fh1))))"
    obtain frs1 fh1 where step: "?step = (Inr frs1, fh1)"
      using Suc.prems(1) a b False w
      by (cases ?step; cases "fst ?step") auto
    have inv1: "list_all (collected_ok m5 thread_ids hdr0) frs1"
    proof (cases wanted)
      case True
      then obtain payload fr where "VDIFFrame fc hdr payload vfy = Inr fr" "frs1 = frs @ [fr]"
        using step by (auto split: prod.splits sum.splits)
      moreover have "collected_ok m5 thread_ids hdr0 \<lparr>f_header = hdr, f_payload = p\<rparr>" for p :: 'a
        using a b False w True
        by (auto simp add: collected_ok_def frame_nr_of_def thread_id_of_def
            split: option.splits sum.splits)
      ultimately show ?thesis
        using Suc.prems(2) by (auto simp add: VDIFFrame_def split: sum.splits)
    next
      case False
      then have "frs1 = frs" using step by (auto split: sum.splits)
      then show ?thesis using Suc.prems(2) by simp
    qed
    obtain r fh2 where rd: "VDIFHeader_fromfile m5 fh1 e vfy = (r, fh2)"
      by (cases "VDIFHeader_fromfile m5 fh1 e vfy")
    show ?thesis
    proof (cases r)
      case (Inl err)
      then have "err = EOFError" "frs' = frs1" "exc = after_handler py err" "fh' = fh_seek_end fh2"
        using Suc.prems(1) a b False w step rd by (auto split: if_splits)
      then show ?thesis using inv1 by (simp add: fh_seek_end_def)
    next
      case (Inr hdr')
      then have "frameset_loop fuel py m5 fc thread_ids e vfy hdr0 fh2 hdr' frs1 =
                   Some (Inr (frs', exc), fh')"
        using Suc.prems(1) a b False w step rd by auto
      then show ?thesis using Suc.IH inv1 by blast
    qed
  qed
qed

text \<open>
  What the function does when thread ids were asked for and the loop ended with fewer
  frames than that: it raises \<^verbatim>\<open>IOError\<close> when the loop ended at a header with another
  frame number; when the loop ended in the handler of \<^verbatim>\<open>EOFError\<close> it raises that
  \<^verbatim>\<open>EOFError\<close> under Python 2 and \<^verbatim>\<open>UnboundLocalError\<close> under Python 3, where the name
  \<^verbatim>\<open>exc\<close> is deleted when the handler is left and the test \<^verbatim>\<open>exc is not None\<close> cannot read
  it.
\<close>

lemma frameset_fewer_frames_run:
  assumes first: "VDIFHeader_fromfile m5 fh e vfy = (Inr hdr0, fh1)"
      and loop: "frameset_loop fuel py m5 fc (Some ids) (h_edv hdr0) vfy hdr0 fh1 hdr0 [] =
                   Some (Inr (frs, exc), fh2)"
      and few: "length frs < length ids"
  shows "VDIFFrameSet_fromfile fuel py m5 fc fh (Some ids) do_sort e vfy =
           Some (Inl (if exc = ExcNone then IOError
                      else (case py of Python2 \<Rightarrow> EOFError | Python3 \<Rightarrow> UnboundLocalError)),
                 fh2)"
proof -
  have "exc = ExcNone \<or> exc = after_handler py EOFError \<and> pos fh2 = length (contents fh2)"
    using frameset_loop_invariant[OF loop] by simp
  then have "frameset_finish py m5 (Some ids) do_sort hdr0 frs exc =
          Inl (if exc = ExcNone then IOError
               else (case py of Python2 \<Rightarrow> EOFError | Python3 \<Rightarrow> UnboundLocalError))"
    using few by (cases py) (auto simp add: frameset_finish_def after_handler_def)
  then show ?thesis
    by (simp add: VDIFFrameSet_fromfile_def first loop)
qed

text \<open>
  Claim C8 on three runs under Python 3.  The stream of the first two holds one frame,
  of thread 0 and frame number 0 (a 32-byte header, EDV 5, frame length 5, and 8 payload
  bytes), and ends there.  With thread 0 asked for, the frame is collected and returned,
  the reader at the end of the stream.  With threads 0 and 1 asked for, one frame is
  collected where two were asked for and the end of the stream stopped the loop: the
  claim has the \<^verbatim>\<open>EOFError\<close> propagated, and the function raises \<^verbatim>\<open>UnboundLocalError\<close>.  In
  the third stream a frame with frame number 1 follows: \<^verbatim>\<open>IOError\<close>, as claimed, the
  reader back before that header.
\<close>

theorem frameset_eof_failing_input:
  "VDIFFrameSet_fromfile 5 Python3 no_mark5b (bytes_payload no_mark5b)
     \<lparr>contents = [0, 0, 0, 0,  0, 0, 0, 0,  5, 0, 0, 0,  0, 0, 0, 0,  0, 0, 0, 5] @ replicate 12 0
                  @ replicate 8 7, pos = 0\<rparr>
     (Some [0]) True EdvNone True
   = Some (Inr \<lparr>frames = [\<lparr>f_header = \<lparr>h_class = VDIFBaseHeader,
                                          h_words = [0, 0, 5, 0, 83886080, 0, 0, 0],
                                          h_edv = EdvInt 5\<rparr>,
                             f_payload = replicate 8 7\<rparr>],
                header0 = \<lparr>h_class = VDIFBaseHeader,
                            h_words = [0, 0, 5, 0, 83886080, 0, 0, 0],
                            h_edv = EdvInt 5\<rparr>\<rparr>,
       \<lparr>contents = [0, 0, 0, 0,  0, 0, 0, 0,  5, 0, 0, 0,  0, 0, 0, 0,  0, 0, 0, 5] @ replicate 12 0
                  @ replicate 8 7, pos = 40\<rparr>) \<and>
   VDIFFrameSet_fromfile 5 Python3 no_mark5b (bytes_payload no_mark5b)
     \<lparr>contents = [0, 0, 0, 0,  0, 0, 0, 0,  5, 0, 0, 0,  0, 0, 0, 0,  0, 0, 0, 5] @ replicate 12 0
                  @ replicate 8 7, pos = 0\<rparr>
     (Some [0, 1]) True EdvNone True
   = Some (Inl UnboundLocalError,
       \<lparr>contents = [0, 0, 0, 0,  0, 0, 0, 0,  5, 0, 0, 0,  0, 0, 0, 0,  0, 0, 0, 5] @ replicate 12 0
                  @ replicate 8 7, pos = 40\<rparr>) \<and>
   VDIFFrameSet_fromfile 5 Python3 no_mark5b (bytes_payload no_mark5b)
     \<lparr>contents = [0, 0, 0, 0,  0, 0, 0, 0,  5, 0, 0, 0,  0, 0, 0, 0,  0, 0, 0, 5] @ replicate 12 0
                  @ replicate 8 7
                  @ [0, 0, 0, 0,  1, 0, 0, 0,  5, 0, 0, 0,  0, 0, 0, 0,  0, 0, 0, 5] @ replicate 12 0
                  @ replicate 8 7, pos = 0\<rparr>
     (Some [0, 1]) True EdvNone True
   = Some (Inl IOError,
       \<lparr>contents = [0, 0, 0, 0,  0, 0, 0, 0,  5, 0, 0, 0,  0, 0, 0, 0,  0, 0, 0, 5] @ replicate 12 0
                  @ replicate 8 7
                  @ [0, 0, 0, 0,  1, 0, 0, 0,  5, 0, 0, 0,  0, 0, 0, 0,  0, 0, 0, 5] @ replicate 12 0
                  @ replicate 8 7, pos = 40\<rparr>)"
  by code_simp

section \<open>Writing the time of a VDIF header\<close>

text \<open>The parser tables of the classes, with the merges carried out.\<close>

lemma legacy_table:
  "VDIFLegacyHeader_header_parser =
     [(''invalid_data'', (0, 31, 1, Some 0)),
      (''legacy_mode'', (0, 30, 1, Some 1)),
      (''seconds'', (0, 0, 30, None)),
      (''_1_30_2'', (1, 30, 2, Some 0)),
      (''ref_epoch'', (1, 24, 6, None)),
      (''frame_nr'', (1, 0, 24, Some 0)),
      (''vdif_version'', (2, 29, 3, Some 1)),
      (''lg2_nchan'', (2, 24, 5, None)),
      (''frame_length'', (2, 0, 24, None)),
      (''complex_data'', (3, 31, 1, None)),
      (''bits_per_sample'', (3, 26, 5, None)),
      (''thread_id'', (3, 16, 10, Some 0)),
      (''station_id'', (3, 0, 16, None))]"
  by code_simp

lemma base_table:
  "VDIFBaseHeader_header_parser =
     [(''invalid_data'', (0, 31, 1, Some 0)),
      (''legacy_mode'', (0, 30, 1, Some 0)),
      (''seconds'', (0, 0, 30, None)),
      (''_1_30_2'', (1, 30, 2, Some 0)),
      (''ref_epoch'', (1, 24, 6, None)),
      (''frame_nr'', (1, 0, 24, Some 0)),
      (''vdif_version'', (2, 29, 3, Some 1)),
      (''lg2_nchan'', (2, 24, 5, None)),
      (''frame_length'', (2, 0, 24, None)),
      (''complex_data'', (3, 31, 1, None)),
      (''bits_per_sample'', (3, 26, 5, None)),
      (''thread_id'', (3, 16, 10, Some 0)),
      (''station_id'', (3, 0, 16, None)),
      (''edv'', (4, 24, 8, None))]"
  by code_simp

lemma sample_rate_table:
  "VDIFSampleRateHeader_header_parser =
     VDIFBaseHeader_header_parser @
     [(''sampling_unit'', (4, 23, 1, None)),
      (''sample_rate'', (4, 0, 23, None)),
      (''sync_pattern'', (5, 0, 32, Some 0xACABFEED))]"
  unfolding base_table by code_simp

lemma header1_table:
  "VDIFHeader1_header_parser =
     VDIFSampleRateHeader_header_parser @ [(''das_id'', (6, 0, 64, Some 0))]"
  unfolding sample_rate_table base_table by code_simp

lemma header3_table:
  "VDIFHeader3_header_parser =
     [(''invalid_data'', (0, 31, 1, Some 0)),
      (''legacy_mode'', (0, 30, 1, Some 0)),
      (''seconds'', (0, 0, 30, None)),
      (''_1_30_2'', (1, 30, 2, Some 0)),
      (''ref_epoch'', (1, 24, 6, None)),
      (''frame_nr'', (1, 0, 24, Some 0)),
      (''vdif_version'', (2, 29, 3, Some 1)),
      (''lg2_nchan'', (2, 24, 5, None)),
      (''frame_length'', (2, 0, 24, Some 629)),
      (''complex_data'', (3, 31, 1, None)),
      (''bits_per_sample'', (3, 26, 5, None)),
      (''thread_id'', (3, 16, 10, Some 0)),
      (''station_id'', (3, 0, 16, None)),
      (''edv'', (4, 24, 8, None)),
      (''sampling_unit'', (4, 23, 1, None)),
      (''sample_rate'', (4, 0, 23, None)),
      (''sync_pattern'', (5, 0, 32, Some 0xACABFEED)),
      (''loif_tuning'', (6, 0, 32, Some 0)),
      (''_7_28_4'', (7, 28, 4, Some 0)),
      (''dbe_unit'', (7, 24, 4, Some 0)),
      (''if_nr'', (7, 20, 4, Some 0)),
      (''subband'', (7, 17, 3, Some 0)),
      (''sideband'', (7, 16, 1, Some 0)),
      (''major_rev'', (7, 12, 4, Some 0)),
      (''minor_rev'', (7, 8, 4, Some 0)),
      (''personality'', (7, 0, 8, None))]"
  by code_simp

lemma header2_table:
  "VDIFHeader2_header_parser =
     [(''invalid_data'', (0, 31, 1, Some 0)),
      (''legacy_mode'', (0, 30, 1, Some 0)),
      (''seconds'', (0, 0, 30, None)),
      (''_1_30_2'', (1, 30, 2, Some 0)),
      (''ref_epoch'', (1, 24, 6, None)),
      (''frame_nr'', (1, 0, 24, Some 0)),
      (''vdif_version'', (2, 29, 3, Some 1)),
      (''lg2_nchan'', (2, 24, 5, None)),
      (''frame_length'', (2, 0, 24, None)),
      (''complex_data'', (3, 31, 1, Some 0)),
      (''bits_per_sample'', (3, 26, 5, Some 1)),
      (''thread_id'', (3, 16, 10, Some 0)),
      (''station_id'', (3, 0, 16, None)),
      (''edv'', (4, 24, 8, None)),
      (''pol'', (4, 0, 1, None)),
      (''BL_quadrant'', (4, 1, 2, None)),
      (''BL_correlator'', (4, 3, 1, None)),
      (''sync_pattern'', (4, 4, 20, Some 0xa5ea5)),
      (''PIC_status'', (5, 0, 32, None)),
      (''PSN'', (6, 0, 64, None))]"
  by code_simp

lemmas vdif_tables = legacy_table base_table sample_rate_table header1_table header3_table
  header2_table

lemma time_fields_of_class:
  assumes "c \<noteq> VDIFMark5BHeader"
  shows "map_of (header_parser_of m5 c) ''ref_epoch'' = Some (1, 24, 6, None)"
    and "map_of (header_parser_of m5 c) ''seconds'' = Some (0, 0, 30, None)"
    and "map_of (header_parser_of m5 c) ''frame_nr'' = Some (1, 0, 24, Some 0)"
  using assms by (cases c; simp add: header_parser_of_def vdif_tables)+

lemma rate_fields_of_class:
  assumes "c \<noteq> VDIFMark5BHeader"
  shows "map_of (header_parser_of m5 c) ''lg2_nchan'' = Some (2, 24, 5, None)"
    and "\<exists>d. map_of (header_parser_of m5 c) ''bits_per_sample'' = Some (3, 26, 5, d)"
    and "\<exists>d. map_of (header_parser_of m5 c) ''complex_data'' = Some (3, 31, 1, d)"
    and "\<exists>d. map_of (header_parser_of m5 c) ''frame_length'' = Some (2, 0, 24, d)"
    and "c = VDIFHeader1 \<or> c = VDIFHeader3 \<or> c = VDIFHeader4 \<Longrightarrow>
           map_of (header_parser_of m5 c) ''sample_rate'' = Some (4, 0, 23, None)"
    and "c = VDIFHeader1 \<or> c = VDIFHeader3 \<or> c = VDIFHeader4 \<Longrightarrow>
           map_of (header_parser_of m5 c) ''sampling_unit'' = Some (4, 23, 1, None)"
  using assms by (cases c; simp add: header_parser_of_def vdif_tables)+

lemma header_getitem_word:
  assumes "map_of (header_parser_of m5 (h_class a)) item = Some (wi, bi, bl, d)"
      and "h_class b = h_class a"
      and "length (h_words b) = length (h_words a)"
      and "wi < length (h_words a) \<longrightarrow> h_words b ! wi = h_words a ! wi"
  shows "header_getitem m5 b item = header_getitem m5 a item"
  using assms
  by (auto simp add: header_getitem_def parsers_def make_parser_def getitem_def Let_def)

lemma framerate_attr_words:
  assumes "h_class a \<noteq> VDIFMark5BHeader"
      and "h_class b = h_class a"
      and "length (h_words b) = length (h_words a)"
      and "\<forall>i\<ge>2. h_words b ! i = h_words a ! i"
  shows "framerate_attr ap m5 b = framerate_attr ap m5 a"
proof -
  note f = rate_fields_of_class[OF assms(1), of m5]
  have same: "header_getitem m5 b item = header_getitem m5 a item"
    if "map_of (header_parser_of m5 (h_class a)) item = Some (wi, bi, bl, d)" "2 \<le> wi"
    for item wi bi bl d
    using that assms(2,3,4) by (intro header_getitem_word[of m5 a item wi bi bl d]) auto
  have g1: "header_getitem m5 b ''lg2_nchan'' = header_getitem m5 a ''lg2_nchan''"
    using same[OF f(1)] by simp
  have g2: "header_getitem m5 b ''bits_per_sample'' = header_getitem m5 a ''bits_per_sample''"
    using same f(2) by fastforce
  have g3: "header_getitem m5 b ''complex_data'' = header_getitem m5 a ''complex_data''"
    using same f(3) by fastforce
  have g4: "header_getitem m5 b ''frame_length'' = header_getitem m5 a ''frame_length''"
    using same f(4) by fastforce
  have nch: "nchan m5 b = nchan m5 a"
    by (simp add: nchan_def g1)
  have bp: "bps m5 b = bps m5 a"
    by (simp add: bps_def g2 g3 cong: sum.case_cong)
  have ps: "payloadsize m5 b = payloadsize m5 a"
    by (simp add: payloadsize_def framesize_def g4 assms(2) cong: sum.case_cong)
  have spf: "samples_per_frame m5 b = samples_per_frame m5 a"
    by (simp add: samples_per_frame_def bp ps nch cong: sum.case_cong if_cong)
  show ?thesis
  proof (cases "h_class a = VDIFHeader1 \<or> h_class a = VDIFHeader3 \<or> h_class a = VDIFHeader4")
    case True
    have g5: "header_getitem m5 b ''sample_rate'' = header_getitem m5 a ''sample_rate''"
      using same[OF f(5)[OF True]] by simp
    have g6: "header_getitem m5 b ''sampling_unit'' = header_getitem m5 a ''sampling_unit''"
      using same[OF f(6)[OF True]] by simp
    have "VDIFSampleRateHeader_framerate ap m5 b = VDIFSampleRateHeader_framerate ap m5 a"
      by (simp add: VDIFSampleRateHeader_framerate_def spf nch g5 g6 cong: sum.case_cong if_cong)
    then show ?thesis
      using True by (auto simp add: framerate_attr_def assms(2))
  next
    case False
    then show ?thesis
      using assms(1,2) by (cases "h_class a") (simp_all add: framerate_attr_def)
  qed
qed

lemma header_setitem_field:
  assumes "map_of (header_parser_of m5 (h_class a)) item = Some (wi, bi, bl, d)"
      and "wi < length (h_words a)"
  shows "header_setitem m5 a item (Some v) =
           (if v AND mask bl = v
            then Inr (a\<lparr>h_words := (h_words a)[wi := field_written bi bl (h_words a ! wi) v]\<rparr>)
            else Inl (ValueError CannotBeRepresented))"
  using assms make_setter_fits[of wi "h_words a" v bl bi d]
    make_setter_overflow[of wi "h_words a" v bl bi d]
  by (auto simp add: header_setitem_def setters_def field_written_def)

lemma header_getitem_field:
  assumes "map_of (header_parser_of m5 (h_class a)) item = Some (wi, bi, bl, d)"
      and "wi < length (h_words a)" "bl \<noteq> 1" "bl \<noteq> 32"
  shows "header_getitem m5 a item = Inr (PInt (field_read bi bl (h_words a ! wi)))"
  using assms make_parser_reads[of wi "h_words a" bl bi]
  by (auto simp add: header_getitem_def parsers_def field_read_def)

lemma field_read_written:
  assumes "v AND mask bl = v"
  shows "field_read bi bl (field_written bi bl w v) = v"
  unfolding field_read_def field_written_def using assms by (rule read_set_field)

lemma field_read_written_other:
  assumes "v AND mask bl = v" and "bi' + bl' \<le> bi \<or> bi + bl \<le> bi'"
  shows "field_read bi' bl' (field_written bi bl w v) = field_read bi' bl' w"
proof (rule bit_eqI)
  fix n
  have "bit v m \<Longrightarrow> m < bl" for m
    using assms(1) by (metis bit_and_iff bit_mask_iff)
  from this[of "bi' + n - bi"]
  show "bit (field_read bi' bl' (field_written bi bl w v)) n = bit (field_read bi' bl' w) n"
    using assms(2)
    by (auto simp add: field_read_def field_written_def bit_simps bit_set_field[OF assms(1)])
qed

lemma searchsorted_largest:
  assumes "sorted a" "a \<noteq> []" "a ! 0 < v"
  defines "n \<equiv> searchsorted a v"
  shows "0 < n \<and> n \<le> length a \<and> a ! (n - 1) < v \<and>
         (\<forall>j<length a. a ! j < v \<longrightarrow> j \<le> n - 1)"
proof -
  have n: "n = length (takeWhile (\<lambda>x. x < v) a)"
    by (simp add: n_def searchsorted_def)
  have le: "n \<le> length a" unfolding n by (rule length_takeWhile_le)
  have pos: "0 < n"
    using assms(2,3) unfolding n by (cases a) auto
  have below: "a ! j < v" if "j < n" for j
    using that unfolding n
    by (metis nth_mem takeWhile_nth set_takeWhileD)
  have stop: "\<not> a ! n < v" if "n < length a"
    using that unfolding n by (rule nth_length_takeWhile)
  have above: "\<not> a ! j < v" if "n \<le> j" "j < length a" for j
  proof -
    have "a ! n \<le> a ! j" using assms(1) that by (simp add: sorted_nth_mono)
    moreover have "\<not> a ! n < v" using stop that by simp
    ultimately show ?thesis by simp
  qed
  have "j \<le> n - 1" if "j < length a" "a ! j < v" for j
    using above[of j] that pos by (cases "n \<le> j") auto
  then show ?thesis using pos le below[of "n - 1"] by auto
qed

lemma py_int_floor: "0 \<le> x \<Longrightarrow> py_int x = \<lfloor>x\<rfloor>"
  by (simp add: py_int_def)

text \<open>
  The run of \<^verbatim>\<open>set_time\<close> on a header of a class other than \<^verbatim>\<open>VDIFMark5BHeader\<close>, when
  the differences \<^verbatim>\<open>(ref_epochs - time).sec\<close> ascend and the first is negative: \<open>k\<close> is
  the index written, \<open>secs\<close> the seconds and \<open>fr\<close> the fraction left.
\<close>

lemma set_time_run:
  fixes ap :: "('t, 'd, 'q) astropy" and m5 :: mark5b_code and self :: header and time :: 't
    and framerate :: "'q option" and ref_epochs :: "'t list"
  assumes cls: "h_class self \<noteq> VDIFMark5BHeader"
      and len: "2 \<le> length (h_words self)"
      and ne: "ref_epochs \<noteq> []"
      and after: "Time_gt ap time (ref_epochs ! 0)"
      and srt: "sorted (map (\<lambda>ep. TimeDelta_sec ap (Time_sub ap ep time)) ref_epochs)"
      and before0: "TimeDelta_sec ap (Time_sub ap (ref_epochs ! 0) time) < 0"
  defines "k \<equiv> searchsorted (map (\<lambda>ep. TimeDelta_sec ap (Time_sub ap ep time)) ref_epochs) 0 - 1"
  defines "delta \<equiv> Time_sub ap time (ref_epochs ! k)"
  defines "secs \<equiv> py_int (TimeDelta_sec ap delta)"
  defines "fr \<equiv> TimeDelta_sub_seconds ap delta secs"
  defines "rate \<equiv> (case framerate of
                      Some f \<Rightarrow> Inr f
                    | None \<Rightarrow> (case framerate_attr ap m5 self of
                        Inl e \<Rightarrow> if e = AttributeError
                                 then Inl (ValueError CannotCalculateFrameRate) else Inl e
                      | Inr f \<Rightarrow> Inr f))"
  defines "ws1 \<equiv> (h_words self)[1 := field_written 24 6 (h_words self ! 1) (int k)]"
  defines "ws2 \<equiv> ws1[0 := field_written 0 30 (ws1 ! 0) secs]"
  shows "VDIFHeader_set_time py ap m5 ref_epochs self time framerate =
     (if int k AND mask 6 \<noteq> int k then (Some (ValueError CannotBeRepresented), self)
      else if secs AND mask 30 \<noteq> secs
        then (Some (ValueError CannotBeRepresented), self\<lparr>h_words := ws1\<rparr>)
      else if TimeDelta_abs_lt_2ns ap fr
        then (None, self\<lparr>h_words := ws2[1 := field_written 0 24 (ws2 ! 1) 0]\<rparr>)
      else (case rate of
              Inl e \<Rightarrow> (Some e, self\<lparr>h_words := ws2\<rparr>)
            | Inr f \<Rightarrow>
                if py_round py (TimeDelta_times_rate ap fr f) AND mask 24 \<noteq>
                   py_round py (TimeDelta_times_rate ap fr f)
                then (Some (ValueError CannotBeRepresented), self\<lparr>h_words := ws2\<rparr>)
                else (None, self\<lparr>h_words :=
                        ws2[1 := field_written 0 24 (ws2 ! 1)
                                   (py_round py (TimeDelta_times_rate ap fr f))]\<rparr>)))"
proof -
  let ?ds = "map (\<lambda>ep. TimeDelta_sec ap (Time_sub ap ep time)) ref_epochs"
  note tf = time_fields_of_class[OF cls, of m5]
  have ds: "?ds \<noteq> []" "?ds ! 0 < 0"
    using ne before0 by (simp_all add: nth_map)
  have ss: "0 < searchsorted ?ds 0" "searchsorted ?ds 0 \<le> length ref_epochs"
    using searchsorted_largest[OF srt ds] by simp_all
  have idx: "int (searchsorted ?ds 0) - 1 = int k"
    using ss(1) by (simp add: k_def)
  have klen: "k < length ref_epochs" using ss(1,2) by (simp add: k_def)
  have e0: "getitem ref_epochs 0 = Inr (ref_epochs ! 0)" using ne by (simp add: getitem_def)
  have ek: "getitem_int ref_epochs (int k) = Inr (ref_epochs ! k)"
    using klen by (simp add: getitem_int_def getitem_def)
  have s1: "header_setitem m5 self ''ref_epoch'' (Some (int k)) =
      (if int k AND mask 6 = int k then Inr (self\<lparr>h_words := ws1\<rparr>)
       else Inl (ValueError CannotBeRepresented))"
    using header_setitem_field[OF tf(1), of "int k"] len by (simp add: ws1_def)
  have c1: "map_of (header_parser_of m5 (h_class (self\<lparr>h_words := ws1\<rparr>))) ''seconds'' =
      Some (0, 0, 30, None)"
    using tf(2) by simp
  have l1: "0 < length (h_words (self\<lparr>h_words := ws1\<rparr>))"
    using len by (auto simp add: ws1_def)
  have s2: "header_setitem m5 (self\<lparr>h_words := ws1\<rparr>) ''seconds'' (Some secs) =
      (if secs AND mask 30 = secs then Inr (self\<lparr>h_words := ws2\<rparr>)
       else Inl (ValueError CannotBeRepresented))"
    using header_setitem_field[OF c1 l1, of secs] by (simp add: ws2_def)
  have c2: "map_of (header_parser_of m5 (h_class (self\<lparr>h_words := ws2\<rparr>))) ''frame_nr'' =
      Some (1, 0, 24, Some 0)"
    using tf(3) by simp
  have l2: "1 < length (h_words (self\<lparr>h_words := ws2\<rparr>))"
    using len by (auto simp add: ws1_def ws2_def)
  have s3: "header_setitem m5 (self\<lparr>h_words := ws2\<rparr>) ''frame_nr'' (Some v) =
      (if v AND mask 24 = v then Inr (self\<lparr>h_words := ws2[1 := field_written 0 24 (ws2 ! 1) v]\<rparr>)
       else Inl (ValueError CannotBeRepresented))" for v
    using header_setitem_field[OF c2 l2, of v] by simp
  have fa: "framerate_attr ap m5 (self\<lparr>h_words := ws2\<rparr>) = framerate_attr ap m5 self"
    using cls by (intro framerate_attr_words) (simp_all add: ws1_def ws2_def)
  show ?thesis
    unfolding VDIFHeader_set_time_def
    using after
    by (simp add: e0 idx s1 ek s2 s3 fa Let_def rate_def delta_def[symmetric]
        secs_def[symmetric] fr_def[symmetric] split: sum.splits option.splits)
qed

lemma fits_mask: "0 \<le> v \<Longrightarrow> v < 2 ^ n \<Longrightarrow> v AND mask n = (v::int)"
  by (simp add: take_bit_int_eq_self flip: take_bit_eq_mask)

lemma time_fields_read:
  fixes m5 :: mark5b_code and self :: header
  assumes cls: "h_class self \<noteq> VDIFMark5BHeader"
      and len: "2 \<le> length (h_words self)"
      and k: "k AND mask 6 = k" and s: "s AND mask 30 = s" and f: "f AND mask 24 = f"
  defines "ws1 \<equiv> (h_words self)[1 := field_written 24 6 (h_words self ! 1) k]"
  defines "ws2 \<equiv> ws1[0 := field_written 0 30 (ws1 ! 0) s]"
  defines "self' \<equiv> self\<lparr>h_words := ws2[1 := field_written 0 24 (ws2 ! 1) f]\<rparr>"
  shows "header_getitem m5 self' ''ref_epoch'' = Inr (PInt k)"
    and "header_getitem m5 self' ''seconds'' = Inr (PInt s)"
    and "header_getitem m5 self' ''frame_nr'' = Inr (PInt f)"
proof -
  note tf = time_fields_of_class[OF cls, of m5]
  have c: "h_class self' = h_class self" by (simp add: self'_def)
  have l: "0 < length (h_words self')" "1 < length (h_words self')"
    using len by (auto simp add: self'_def ws1_def ws2_def)
  have l0: "0 < length (h_words self)" "Suc 0 < length (h_words self)"
    using len by auto
  have w1: "h_words self' ! Suc 0 = field_written 0 24 (field_written 24 6 (h_words self ! 1) k) f"
    using l0 by (simp add: self'_def ws1_def ws2_def)
  have w0: "h_words self' ! 0 = field_written 0 30 (h_words self ! 0) s"
    using l0 by (simp add: self'_def ws1_def ws2_def)
  show "header_getitem m5 self' ''ref_epoch'' = Inr (PInt k)"
    using header_getitem_field[of m5 self' "''ref_epoch''" 1 24 6 None] tf(1) l
    by (simp add: c w1 field_read_written_other[OF f] field_read_written[OF k])
  show "header_getitem m5 self' ''seconds'' = Inr (PInt s)"
    using header_getitem_field[of m5 self' "''seconds''" 0 0 30 None] tf(2) l
    by (simp add: c w0 field_read_written[OF s])
  show "header_getitem m5 self' ''frame_nr'' = Inr (PInt f)"
    using header_getitem_field[of m5 self' "''frame_nr''" 1 0 24 "Some 0"] tf(3) l
    by (simp add: c w1 field_read_written[OF f])
qed

text \<open>
  Claim C5, as amended.  The header is of any class of the file but
  \<^verbatim>\<open>VDIFMark5BHeader\<close> (which overrides \<^verbatim>\<open>set_time\<close>) and has its first two words.  The
  time is after the first reference epoch, both as the assertion \<^verbatim>\<open>time > ref_epochs[0]\<close>
  and as the difference \<^verbatim>\<open>(ref_epochs[0] - time).sec\<close> see it, and the differences
  \<^verbatim>\<open>(ref_epochs - time).sec\<close> ascend, as those of ascending epochs do.  Then there is an
  index \<open>k\<close>, the largest whose epoch is before the time, strictly (its difference is
  below 0), such that a call that returns has set \<^verbatim>\<open>ref_epoch\<close> to \<open>k\<close>, \<^verbatim>\<open>seconds\<close> to
  the integer part of \<^verbatim>\<open>(time - ref_epochs[k]).sec\<close>, which is its floor when it is not
  negative, and \<^verbatim>\<open>frame_nr\<close> to 0 when the remaining fraction of a second is below 2 ns
  and else to \<^verbatim>\<open>round\<close> of the fraction times the frame rate, the one passed in or else
  the header's own.  When the fraction is not below 2 ns, no rate is passed in and the
  class of the header has no frame rate (the legacy and base headers and EDV 2), the call
  raises the \<^verbatim>\<open>ValueError\<close> of the missing frame rate (provided the two fields written
  before fit their widths).  The differences, the fraction and the product are the
  double-precision results of the operations of \<^typ>\<open>('t, 'd, 'q) astropy\<close>, whatever they
  are.
\<close>

theorem set_time_fields:
  fixes ap :: "('t, 'd, 'q) astropy" and m5 :: mark5b_code and self :: header and time :: 't
    and framerate :: "'q option" and ref_epochs :: "'t list"
  assumes cls: "h_class self \<noteq> VDIFMark5BHeader"
      and len: "2 \<le> length (h_words self)"
      and ne: "ref_epochs \<noteq> []"
      and after: "Time_gt ap time (ref_epochs ! 0)"
      and srt: "sorted (map (\<lambda>ep. TimeDelta_sec ap (Time_sub ap ep time)) ref_epochs)"
      and before0: "TimeDelta_sec ap (Time_sub ap (ref_epochs ! 0) time) < 0"
  shows "\<exists>k. k < length ref_epochs \<and>
           TimeDelta_sec ap (Time_sub ap (ref_epochs ! k) time) < 0 \<and>
           (\<forall>j<length ref_epochs.
              TimeDelta_sec ap (Time_sub ap (ref_epochs ! j) time) < 0 \<longrightarrow> j \<le> k) \<and>
           (let delta = Time_sub ap time (ref_epochs ! k);
                secs = py_int (TimeDelta_sec ap delta);
                fr = TimeDelta_sub_seconds ap delta secs;
                r = VDIFHeader_set_time py ap m5 ref_epochs self time framerate
            in
              (0 \<le> TimeDelta_sec ap delta \<longrightarrow> secs = \<lfloor>TimeDelta_sec ap delta\<rfloor>) \<and>
              (fst r = None \<longrightarrow>
                 header_getitem m5 (snd r) ''ref_epoch'' = Inr (PInt (int k)) \<and>
                 header_getitem m5 (snd r) ''seconds'' = Inr (PInt secs) \<and>
                 (TimeDelta_abs_lt_2ns ap fr \<longrightarrow>
                    header_getitem m5 (snd r) ''frame_nr'' = Inr (PInt 0)) \<and>
                 (\<not> TimeDelta_abs_lt_2ns ap fr \<longrightarrow>
                    (\<exists>f. (framerate = Some f \<or>
                          framerate = None \<and> framerate_attr ap m5 self = Inr f) \<and>
                         header_getitem m5 (snd r) ''frame_nr'' =
                           Inr (PInt (py_round py (TimeDelta_times_rate ap fr f)))))) \<and>
              (\<not> TimeDelta_abs_lt_2ns ap fr \<and> framerate = None \<and>
               h_class self \<in> {VDIFLegacyHeader, VDIFBaseHeader, VDIFHeader2} \<and>
               k < 64 \<and> 0 \<le> secs \<and> secs < 2 ^ 30 \<longrightarrow>
                 fst r = Some (ValueError CannotCalculateFrameRate)))"
proof -
  let ?ds = "map (\<lambda>ep. TimeDelta_sec ap (Time_sub ap ep time)) ref_epochs"
  define k where "k = searchsorted ?ds 0 - 1"
  define delta where "delta = Time_sub ap time (ref_epochs ! k)"
  define secs where "secs = py_int (TimeDelta_sec ap delta)"
  define fr where "fr = TimeDelta_sub_seconds ap delta secs"
  define r where "r = VDIFHeader_set_time py ap m5 ref_epochs self time framerate"
  define rate where "rate = (case framerate of
                      Some f \<Rightarrow> Inr f
                    | None \<Rightarrow> (case framerate_attr ap m5 self of
                        Inl e \<Rightarrow> if e = AttributeError
                                 then Inl (ValueError CannotCalculateFrameRate) else Inl e
                      | Inr f \<Rightarrow> Inr f))"
  define ws1 where "ws1 = (h_words self)[1 := field_written 24 6 (h_words self ! 1) (int k)]"
  define ws2 where "ws2 = ws1[0 := field_written 0 30 (ws1 ! 0) secs]"
  note run = set_time_run[OF cls len ne after srt before0, of py m5 framerate,
      folded k_def, folded delta_def, folded secs_def, folded fr_def, folded rate_def,
      folded ws1_def, folded ws2_def, folded r_def]
  have ds: "?ds \<noteq> []" "?ds ! 0 < 0"
    using ne before0 by (simp_all add: nth_map)
  have kk: "k < length ref_epochs"
      "TimeDelta_sec ap (Time_sub ap (ref_epochs ! k) time) < 0"
      "\<forall>j<length ref_epochs.
         TimeDelta_sec ap (Time_sub ap (ref_epochs ! j) time) < 0 \<longrightarrow> j \<le> k"
  proof -
    have L: "0 < searchsorted ?ds 0" "searchsorted ?ds 0 \<le> length ?ds" "?ds ! k < 0"
        "\<forall>j<length ?ds. ?ds ! j < 0 \<longrightarrow> j \<le> k"
      using searchsorted_largest[OF srt ds] by (simp_all add: k_def)
    show k: "k < length ref_epochs" using L(1,2) by (simp add: k_def)
    show "TimeDelta_sec ap (Time_sub ap (ref_epochs ! k) time) < 0"
      using L(3) k by (simp add: nth_map)
    show "\<forall>j<length ref_epochs.
         TimeDelta_sec ap (Time_sub ap (ref_epochs ! j) time) < 0 \<longrightarrow> j \<le> k"
      using L(4) by (simp add: nth_map)
  qed
  have fl: "0 \<le> TimeDelta_sec ap delta \<longrightarrow> secs = \<lfloor>TimeDelta_sec ap delta\<rfloor>"
    by (simp add: secs_def py_int_floor)
  have ok: "header_getitem m5 (snd r) ''ref_epoch'' = Inr (PInt (int k)) \<and>
            header_getitem m5 (snd r) ''seconds'' = Inr (PInt secs) \<and>
            (TimeDelta_abs_lt_2ns ap fr \<longrightarrow>
               header_getitem m5 (snd r) ''frame_nr'' = Inr (PInt 0)) \<and>
            (\<not> TimeDelta_abs_lt_2ns ap fr \<longrightarrow>
               (\<exists>f. (framerate = Some f \<or>
                     framerate = None \<and> framerate_attr ap m5 self = Inr f) \<and>
                    header_getitem m5 (snd r) ''frame_nr'' =
                      Inr (PInt (py_round py (TimeDelta_times_rate ap fr f)))))"
    if none: "fst r = None"
  proof -
    have km: "int k AND mask 6 = int k" and sm: "secs AND mask 30 = secs"
      using none unfolding run by (auto split: if_splits)
    show ?thesis
    proof (cases "TimeDelta_abs_lt_2ns ap fr")
      case True
      then have r: "snd r = self\<lparr>h_words := ws2[1 := field_written 0 24 (ws2 ! 1) 0]\<rparr>"
        unfolding run using km sm by simp
      show ?thesis
        using True time_fields_read[OF cls len km sm, of 0 m5]
        by (simp add: r ws1_def ws2_def)
    next
      case False
      then obtain f where f: "rate = Inr f"
          "py_round py (TimeDelta_times_rate ap fr f) AND mask 24 =
             py_round py (TimeDelta_times_rate ap fr f)"
          "snd r = self\<lparr>h_words := ws2[1 := field_written 0 24 (ws2 ! 1)
                                           (py_round py (TimeDelta_times_rate ap fr f))]\<rparr>"
        using none km sm unfolding run by (auto split: sum.splits if_splits)
      have "framerate = Some f \<or> framerate = None \<and> framerate_attr ap m5 self = Inr f"
        using f(1) by (auto simp add: rate_def split: option.splits sum.splits if_splits)
      then show ?thesis
        using False time_fields_read[OF cls len km sm f(2), of m5]
        by (auto simp add: f(3) ws1_def ws2_def)
    qed
  qed
  have bad: "fst r = Some (ValueError CannotCalculateFrameRate)"
    if "\<not> TimeDelta_abs_lt_2ns ap fr \<and> framerate = None \<and>
        h_class self \<in> {VDIFLegacyHeader, VDIFBaseHeader, VDIFHeader2} \<and>
        k < 64 \<and> 0 \<le> secs \<and> secs < 2 ^ 30"
  proof -
    have km: "int k AND mask 6 = int k" using that by (intro fits_mask) auto
    have sm: "secs AND mask 30 = secs" using that by (intro fits_mask) auto
    have "framerate_attr ap m5 self = Inl AttributeError"
      using that by (auto simp add: framerate_attr_def)
    then have "rate = Inl (ValueError CannotCalculateFrameRate)"
      using that by (simp add: rate_def)
    then show ?thesis unfolding run using that km sm by simp
  qed
  show ?thesis
    apply (rule exI[of _ k])
    unfolding Let_def delta_def[symmetric] secs_def[symmetric] fr_def[symmetric]
      r_def[symmetric]
    using kk fl ok bad by blast
qed

text \<open>
  The theorem of claim C5 a quarter of a second and 100 seconds after the second of three
  epochs (2000-01-01, 2000-07-01 and 2001-01-01, in seconds from the first), with the
  exact operations: with 1000 frames a second passed in, an EDV 1 header gets epoch 1,
  100 seconds and frame 250; a legacy header without a rate raises.
\<close>

theorem set_time_fields_witness:
  "(let r = VDIFHeader_set_time Python3 exact_astropy no_mark5b [0, 15724800, 31622400]
              \<lparr>h_class = VDIFHeader1, h_words = replicate 8 0, h_edv = EdvInt 1\<rparr>
              (15724900 + 1 / 4) (Some 1000)
    in fst r = None \<and>
       header_getitem no_mark5b (snd r) ''ref_epoch'' = Inr (PInt 1) \<and>
       header_getitem no_mark5b (snd r) ''seconds'' = Inr (PInt 100) \<and>
       header_getitem no_mark5b (snd r) ''frame_nr'' = Inr (PInt 250)) \<and>
   fst (VDIFHeader_set_time Python3 exact_astropy no_mark5b [0, 15724800, 31622400]
          \<lparr>h_class = VDIFLegacyHeader, h_words = replicate 4 0, h_edv = EdvFalse\<rparr>
          (15724900 + 1 / 4) None) = Some (ValueError CannotCalculateFrameRate)"
proof -
  let ?es = "[0, 15724800, 31622400] :: rat list"
  let ?t = "15724900 + 1 / 4 :: rat"
  let ?h = "\<lparr>h_class = VDIFHeader1, h_words = replicate 8 0, h_edv = EdvInt 1\<rparr>"
  let ?l = "\<lparr>h_class = VDIFLegacyHeader, h_words = replicate 4 0, h_edv = EdvFalse\<rparr>"
  let ?r = "VDIFHeader_set_time Python3 exact_astropy no_mark5b ?es ?h ?t (Some 1000)"
  let ?q = "VDIFHeader_set_time Python3 exact_astropy no_mark5b ?es ?l ?t None"
  let ?before = "\<lambda>j. TimeDelta_sec exact_astropy (Time_sub exact_astropy (?es ! j) ?t) < 0"
  have ev: "fst ?r = None" by code_simp
  have ops: "Time_gt exact_astropy = (\<lambda>a b. b < a)"
      "Time_sub exact_astropy = (\<lambda>a b. a - b)"
      "TimeDelta_sec exact_astropy = (\<lambda>d. d)"
      "TimeDelta_sub_seconds exact_astropy = (\<lambda>d n. d - of_int n)"
      "TimeDelta_abs_lt_2ns exact_astropy = (\<lambda>d. \<bar>d\<bar> < 2 / 1000000000)"
      "TimeDelta_times_rate exact_astropy = (\<lambda>d f. d * f)"
    by (simp_all add: exact_astropy_def)
  have fl: "py_int (?t - 15724800) = 100"
      "py_round Python3 ((?t - 15724800 - 100) * 1000) = 250"
    by code_simp+
  have hyp: "?es \<noteq> []" "Time_gt exact_astropy ?t (?es ! 0)"
      "sorted (map (\<lambda>ep. TimeDelta_sec exact_astropy (Time_sub exact_astropy ep ?t)) ?es)"
      "TimeDelta_sec exact_astropy (Time_sub exact_astropy (?es ! 0) ?t) < 0"
    by (simp_all add: ops)
  have one: "k = 1" if "k < length ?es" "?before k" "\<forall>j<length ?es. ?before j \<longrightarrow> j \<le> k" for k
  proof -
    have "1 \<le> k" using that(3)[rule_format, of 1] by (simp add: ops)
    moreover have "k \<noteq> 2" using that(2) by (auto simp add: ops)
    ultimately show ?thesis using that(1) by simp
  qed
  obtain k where k: "k < length ?es" "?before k" "\<forall>j<length ?es. ?before j \<longrightarrow> j \<le> k"
    and f: "(let delta = Time_sub exact_astropy ?t (?es ! k);
                 secs = py_int (TimeDelta_sec exact_astropy delta);
                 fr = TimeDelta_sub_seconds exact_astropy delta secs in
              (fst ?r = None \<longrightarrow>
                 header_getitem no_mark5b (snd ?r) ''ref_epoch'' = Inr (PInt (int k)) \<and>
                 header_getitem no_mark5b (snd ?r) ''seconds'' = Inr (PInt secs) \<and>
                 (\<not> TimeDelta_abs_lt_2ns exact_astropy fr \<longrightarrow>
                    (\<exists>f. (Some 1000 = Some f \<or>
                          Some (1000::rat) = None \<and>
                          framerate_attr exact_astropy no_mark5b ?h = Inr f) \<and>
                         header_getitem no_mark5b (snd ?r) ''frame_nr'' =
                           Inr (PInt (py_round Python3
                                  (TimeDelta_times_rate exact_astropy fr f)))))))"
    using set_time_fields[of ?h ?es exact_astropy ?t Python3 no_mark5b "Some 1000", OF _ _ hyp]
    by (auto simp add: Let_def)
  have k1: "k = 1" using one[OF k] .
  obtain k' where k': "k' < length ?es" "?before k'" "\<forall>j<length ?es. ?before j \<longrightarrow> j \<le> k'"
    and g: "(let delta = Time_sub exact_astropy ?t (?es ! k');
                 secs = py_int (TimeDelta_sec exact_astropy delta);
                 fr = TimeDelta_sub_seconds exact_astropy delta secs in
              (\<not> TimeDelta_abs_lt_2ns exact_astropy fr \<and> (None :: rat option) = None \<and>
               h_class ?l \<in> {VDIFLegacyHeader, VDIFBaseHeader, VDIFHeader2} \<and>
               k' < 64 \<and> 0 \<le> secs \<and> secs < 2 ^ 30 \<longrightarrow>
                 fst ?q = Some (ValueError CannotCalculateFrameRate)))"
    using set_time_fields[of ?l ?es exact_astropy ?t Python3 no_mark5b None, OF _ _ hyp]
    by (auto simp add: Let_def)
  have k'1: "k' = 1" using one[OF k'] .
  have "fst ?q = Some (ValueError CannotCalculateFrameRate)"
    using g fl(1) unfolding k'1 Let_def by (simp add: ops)
  moreover have "header_getitem no_mark5b (snd ?r) ''ref_epoch'' = Inr (PInt 1) \<and>
       header_getitem no_mark5b (snd ?r) ''seconds'' = Inr (PInt 100) \<and>
       header_getitem no_mark5b (snd ?r) ''frame_nr'' = Inr (PInt 250)"
    using f ev fl unfolding k1 Let_def by (simp add: ops)
  ultimately show ?thesis using ev unfolding Let_def by simp
qed

text \<open>
  Claim C5 as stated fails twice.  In the first run every number is exactly
  representable; in the second the fraction, a quarter of a second, is far from the
  threshold of 2 ns, and no other number is computed before the exception.  So the exact
  operations decide as those of the code do.

  At a time equal to the second reference epoch the largest index with
  \<open>ref_epochs[k] \<le> time\<close> is 1, with 0 seconds; the code, whose \<^verbatim>\<open>searchsorted(...) - 1\<close>
  counts the epochs strictly before the time, writes epoch 0 and the 15724800 seconds of
  the half-year.  The assertion \<^verbatim>\<open>time > ref_epochs[0]\<close> at the top of the function is
  strict in the same way.

  An EDV 1 header whose frame length is that of the header alone (4 units of 8 bytes) has
  no samples in a frame, so that its frame rate cannot be derived.  A quarter of a second
  after the second epoch the rate is needed; without one passed in the call raises the
  \<^verbatim>\<open>ZeroDivisionError\<close> of the property \<^verbatim>\<open>framerate\<close>, not the \<^verbatim>\<open>ValueError\<close> of the
  missing frame rate, which only an \<^verbatim>\<open>AttributeError\<close> is turned into.
\<close>

theorem set_time_claim_counterexample:
  "[0, 15724800, 31622400] ! 1 \<le> (15724800 :: rat) \<and>
   \<not> [0, 15724800, 31622400] ! 2 \<le> (15724800 :: rat) \<and>
   (let r = VDIFHeader_set_time Python3 exact_astropy no_mark5b [0, 15724800, 31622400]
              \<lparr>h_class = VDIFHeader1, h_words = replicate 8 0, h_edv = EdvInt 1\<rparr>
              15724800 None
    in fst r = None \<and>
       header_getitem no_mark5b (snd r) ''ref_epoch'' = Inr (PInt 0) \<and>
       header_getitem no_mark5b (snd r) ''ref_epoch'' \<noteq> Inr (PInt 1) \<and>
       header_getitem no_mark5b (snd r) ''seconds'' = Inr (PInt 15724800) \<and>
       header_getitem no_mark5b (snd r) ''seconds'' \<noteq> Inr (PInt 0)) \<and>
   framerate_attr exact_astropy no_mark5b
     \<lparr>h_class = VDIFHeader1, h_words = [0, 0, 4, 0, 16777216, 0, 0, 0], h_edv = EdvInt 1\<rparr>
     = Inl ZeroDivisionError \<and>
   (let r = VDIFHeader_set_time Python3 exact_astropy no_mark5b [0, 15724800, 31622400]
              \<lparr>h_class = VDIFHeader1, h_words = [0, 0, 4, 0, 16777216, 0, 0, 0],
                h_edv = EdvInt 1\<rparr>
              (15724800 + 1 / 4) None
    in fst r = Some ZeroDivisionError \<and>
       fst r \<noteq> Some (ValueError CannotCalculateFrameRate))"
  by code_simp

section \<open>The payload codec\<close>

lemma list8:
  assumes "length bs = 8"
  obtains b0 b1 b2 b3 b4 b5 b6 b7 where "bs = [b0, b1, b2, b3, b4, b5, b6, b7]"
proof -
  from assms have "bs = map (\<lambda>i. bs ! i) [0..<8]"
    by (metis map_nth)
  then have "bs = [bs ! 0, bs ! 1, bs ! 2, bs ! 3, bs ! 4, bs ! 5, bs ! 6, bs ! 7]"
    by (simp add: upt_rec numeral_eq_Suc)
  then show ?thesis using that by blast
qed

lemma view_little_bytes:
  fixes b0 b1 b2 b3 b4 b5 b6 b7 :: "8 word"
  shows "map (\<lambda>i. ucast (drop_bit (8 * i)
             (foldr (\<lambda>b acc. ucast b OR push_bit 8 acc) [b0, b1, b2, b3, b4, b5, b6, b7]
                (0 :: 64 word))))
           [0, 1, 2, 3, 4, 5, 6, 7] = [b0, b1, b2, b3, b4, b5, b6, b7]"
  apply simp
  apply (intro conjI)
         apply (rule bit_word_eqI; auto simp add: bit_simps dest: bit_imp_le_length)+
  done

lemma view_uint8_word_of_bytes:
  assumes "length bs = 8"
  shows "view_uint8 bo (word_of_bytes bo bs) = bs"
proof -
  obtain b0 b1 b2 b3 b4 b5 b6 b7 where bs: "bs = [b0, b1, b2, b3, b4, b5, b6, b7]"
    using assms by (rule list8)
  have up: "[0..<8] = [0, 1, 2, 3, 4, 5, 6, 7]"
    by (simp add: upt_rec numeral_eq_Suc)
  show ?thesis
  proof (cases bo)
    case Little
    show ?thesis
      unfolding view_uint8_def word_of_bytes_def Little bs up Let_def byteorder.case
      by (rule view_little_bytes)
  next
    case Big
    have "rev (map (\<lambda>i. ucast (drop_bit (8 * i)
             (foldr (\<lambda>b acc. ucast b OR push_bit 8 acc) [b7, b6, b5, b4, b3, b2, b1, b0]
                (0 :: 64 word))))
           [0, 1, 2, 3, 4, 5, 6, 7]) = rev [b7, b6, b5, b4, b3, b2, b1, b0]"
      unfolding view_little_bytes ..
    then show ?thesis
      unfolding view_uint8_def word_of_bytes_def Big bs up Let_def byteorder.case
      by simp
  qed
qed

lemma two_bits:
  fixes x :: "8 word"
  shows "unat (x AND 1) + unat (drop_bit 1 x AND 1) * 2 = unat (x AND 3)"
proof -
  have 3: "x AND 3 = take_bit 2 x" by (simp add: take_bit_eq_mask mask_eq_exp_minus_1)
  have 1: "y AND 1 = take_bit 1 y" for y :: "8 word"
    by (simp add: take_bit_eq_mask mask_eq_exp_minus_1)
  have a: "unat (x AND 3) = unat x mod 4"
    unfolding 3 by (simp add: take_bit_eq_mod unat_mod_distrib)
  have b: "unat (x AND 1) = unat x mod 2"
    unfolding 1 by (simp add: take_bit_eq_mod unat_mod_distrib)
  have c: "unat (drop_bit 1 x AND 1) = unat x div 2 mod 2"
    unfolding 1 by (simp add: take_bit_eq_mod unat_mod_distrib drop_bit_eq_div unat_div_distrib)
  show ?thesis unfolding a b c by presburger
qed

lemma nth_concat_fixed:
  assumes "\<forall>x \<in> set xs. length x = m" "t < m * length xs"
  shows "concat xs ! t = xs ! (t div m) ! (t mod m)"
  using assms
proof (induction xs arbitrary: t)
  case Nil
  then show ?case by simp
next
  case (Cons x xs)
  have lx: "length x = m" using Cons.prems(1) by simp
  have m: "0 < m" using Cons.prems(2) by (cases m) auto
  show ?case
  proof (cases "t < m")
    case True
    then show ?thesis using lx by (simp add: nth_append)
  next
    case False
    then have t: "t - m < m * length xs" using Cons.prems(2) by simp
    have d: "t div m = Suc ((t - m) div m)" "t mod m = (t - m) mod m"
      using False m by (simp_all add: le_div_geq le_mod_geq)
    show ?thesis
      using False lx Cons.IH[OF _ t] Cons.prems(1) by (simp add: nth_append d)
  qed
qed

lemma length_concat_fixed:
  assumes "\<forall>x \<in> set xs. length x = m"
  shows "length (concat xs) = m * length xs"
  using assms by (induction xs) auto

lemma small_bits:
  fixes q :: "8 word"
  assumes "unat q < 4" "bit q n"
  shows "n < 2"
proof -
  have "q < 2 ^ 2" using assms(1) by (simp add: word_less_nat_alt)
  then have "q AND mask 2 = q" by (rule less_mask_eq)
  then show ?thesis using assms(2) by (metis bit_and_iff bit_mask_iff)
qed

lemma byte_fields:
  fixes q0 q1 q2 q3 :: "8 word"
  assumes "unat q0 < 4" "unat q1 < 4" "unat q2 < 4" "unat q3 < 4"
  defines "b \<equiv> q0 OR push_bit 2 q1 OR push_bit 4 q2 OR push_bit 6 q3"
  shows "b AND 3 = q0" "drop_bit 2 b AND 3 = q1" "drop_bit 4 b AND 3 = q2"
    "drop_bit 6 b AND 3 = q3"
proof -
  have 3: "(3 :: 8 word) = mask 2" by (simp add: mask_eq_exp_minus_1)
  note s = small_bits[OF assms(1)] small_bits[OF assms(2)] small_bits[OF assms(3)]
    small_bits[OF assms(4)]
  show "b AND 3 = q0"
    unfolding b_def 3
    by (rule bit_word_eqI) (auto simp add: bit_simps dest: s)
  show "drop_bit 2 b AND 3 = q1"
    unfolding b_def 3
    by (rule bit_word_eqI) (auto simp add: bit_simps dest: s)
  show "drop_bit 4 b AND 3 = q2"
    unfolding b_def 3
    by (rule bit_word_eqI) (auto simp add: bit_simps dest: s)
  show "drop_bit 6 b AND 3 = q3"
    unfolding b_def 3
    by (rule bit_word_eqI) (auto simp add: bit_simps dest: s)
qed

lemma lut2bit1_byte:
  fixes q0 q1 q2 q3 :: "8 word"
  assumes "unat q0 < 4" "unat q1 < 4" "unat q2 < 4" "unat q3 < 4"
  shows "lut2bit1 (foldr (OR) (map (\<lambda>(b, s). push_bit s b) (zip [q0, q1, q2, q3] [0, 2, 4, 6])) 0)
           = map (\<lambda>q. lut4level ! unat q) [q0, q1, q2, q3]"
proof -
  let ?b = "q0 OR push_bit 2 q1 OR push_bit 4 q2 OR push_bit 6 q3"
  have b: "foldr (OR) (map (\<lambda>(b, s). push_bit s b) (zip [q0, q1, q2, q3] [0, 2, 4, 6])) 0 = ?b"
    by simp
  have up: "[0..<4] = [0, 1, 2, 3]" by (simp add: upt_rec numeral_eq_Suc)
  have idx: "unat (drop_bit (2 * i) ?b AND 1) + unat (drop_bit (2 * i + 1) ?b AND 1) * 2 =
             unat (drop_bit (2 * i) ?b AND 3)" for i
    using two_bits[of "drop_bit (2 * i) ?b"] by (simp add: drop_bit_drop_bit add.commute)
  show ?thesis
    unfolding b lut2bit1_def idx up
    using byte_fields[OF assms] by simp
qed

text \<open>
  The decoder, entry by entry: sample \<open>t\<close> of channel \<open>c\<close> is entry \<open>t mod 4\<close> of the
  table row of byte \<open>reorder_channels[c]\<close> of the reordered word \<open>t div 4\<close>.
\<close>

lemma length_lut2bit1: "length (lut2bit1 b) = 4"
  by (simp add: lut2bit1_def)

lemma length_view_uint8: "length (view_uint8 bo w) = 8"
  by (cases bo) (simp_all add: view_uint8_def)

lemma length_reorder_channels: "length reorder_channels = 8"
  by (simp add: reorder_channels_def)

lemma decode_nth:
  "decode_8chan_2bit_fanout4 bo frame =
     map (\<lambda>t. map (\<lambda>c. lut2bit1 (view_uint8 bo (reorder64 bo (frame ! (t div 4)))
                                   ! (reorder_channels ! c)) ! (t mod 4)) [0..<8])
         [0..<4 * length frame]"
proof -
  define bytes where "bytes = map (\<lambda>w. view_uint8 bo (reorder64 bo w)) frame"
  define taken where "taken = map (\<lambda>row. map (\<lambda>j. row ! j) reorder_channels) bytes"
  define reshaped where
    "reshaped = map concat (map (map lut2bit1) (map (\<lambda>c. map (\<lambda>row. row ! c) taken) [0..<8]))"
  have dec: "decode_8chan_2bit_fanout4 bo frame =
      map (\<lambda>t. map (\<lambda>c. reshaped ! c ! t) [0..<8]) [0..<length (reshaped ! 0)]"
    unfolding decode_8chan_2bit_fanout4_def Let_def reshaped_def taken_def bytes_def ..
  have lt: "length taken = length frame" by (simp add: taken_def bytes_def)
  have rc: "reshaped ! c = concat (map (\<lambda>row. lut2bit1 (row ! c)) taken)" if "c < 8" for c
    using that by (simp add: reshaped_def comp_def)
  have len: "length (reshaped ! c) = 4 * length frame" if "c < 8" for c
    unfolding rc[OF that]
    by (subst length_concat_fixed[where m = 4]) (auto simp add: length_lut2bit1 lt)
  have el: "reshaped ! c ! t =
      lut2bit1 (view_uint8 bo (reorder64 bo (frame ! (t div 4))) ! (reorder_channels ! c))
        ! (t mod 4)"
    if "c < 8" "t < 4 * length frame" for c t
  proof -
    have k: "t div 4 < length frame" using that(2) by auto
    have "reshaped ! c ! t = map (\<lambda>row. lut2bit1 (row ! c)) taken ! (t div 4) ! (t mod 4)"
      unfolding rc[OF that(1)]
      by (rule nth_concat_fixed[where m = 4]) (auto simp add: length_lut2bit1 lt that(2))
    also have "\<dots> = lut2bit1 (taken ! (t div 4) ! c) ! (t mod 4)"
      using k lt by simp
    also have "taken ! (t div 4) ! c =
        view_uint8 bo (reorder64 bo (frame ! (t div 4))) ! (reorder_channels ! c)"
      using k that(1) by (simp add: taken_def bytes_def length_reorder_channels)
    finally show ?thesis .
  qed
  show ?thesis
    unfolding dec len[of 0, simplified]
    by (rule map_cong[OF refl], rule map_cong[OF refl]) (simp add: el)
qed

text \<open>
  The check recorded in the source next to \<^verbatim>\<open>reorder64\<close>: the word 738811025863578102
  decodes, on a little-endian host, to the four samples of eight channels listed there
  (with 3 for the high level).
\<close>

lemma decode_source_check:
  "decode_8chan_2bit_fanout4 Little [738811025863578102] =
     (let h = OPTIMAL_2BIT_HIGH in
      [[- 1, 1, 1, - h, - h, - h, 1, - 1],
       [1, 1, - h, 1, 1, - h, - 1, - 1],
       [h, h, 1, h, 1, - h, 1, - h],
       [1, - h, h, h, - 1, 1, h, - h]])"
  by code_simp

text \<open>The encoder on an array of shape \<open>(4n, 8)\<close> whose samples get codes below 4.\<close>

lemma take_drop_nth4:
  assumes "4 * k + 4 \<le> length xs"
  shows "take 4 (drop (4 * k) xs) = map (\<lambda>i. xs ! (4 * k + i)) [0..<4]"
proof (rule nth_equalityI)
  show "length (take 4 (drop (4 * k) xs)) = length (map (\<lambda>i. xs ! (4 * k + i)) [0..<4])"
    using assms by simp
  fix i
  assume "i < length (take 4 (drop (4 * k) xs))"
  then have i: "i < 4" by simp
  then show "take 4 (drop (4 * k) xs) ! i = map (\<lambda>i. xs ! (4 * k + i)) [0..<4] ! i"
    using assms by simp
qed

lemma take_drop_concat:
  assumes "\<forall>x \<in> set xs. length x = m" "k < length xs"
  shows "take m (drop (m * k) (concat xs)) = xs ! k"
  using assms
proof (induction xs arbitrary: k)
  case Nil
  then show ?case by simp
next
  case (Cons x xs)
  show ?case
  proof (cases k)
    case 0
    then show ?thesis using Cons.prems by simp
  next
    case (Suc j)
    then show ?thesis using Cons.prems Cons.IH[of j] by simp
  qed
qed

lemma view_uint64_concat:
  assumes "\<forall>row \<in> set rows. length row = 8"
  shows "view_uint64 bo (concat rows) = map (word_of_bytes bo) rows"
proof -
  have l: "length (concat rows) = 8 * length rows"
    using assms by (rule length_concat_fixed)
  show ?thesis
    unfolding view_uint64_def l
    by (intro nth_equalityI) (simp_all add: take_drop_concat[OF assms])
qed

lemma encode_explicit:
  assumes rows: "\<forall>row \<in> set x. length row = 8"
      and m4: "length x mod 4 = 0"
      and codes: "\<forall>row \<in> set x. \<forall>v \<in> set row. unat (enc v) < 4"
  shows "encode_8chan_2bit_fanout4 bo enc x =
     Inr (map (\<lambda>k. reorder64 bo (word_of_bytes bo
            (map (\<lambda>c. foldr (OR)
                   (map (\<lambda>(b, s). push_bit s b)
                      (zip (map (\<lambda>i. reorder_bits ! unat (enc (x ! (4 * k + i) ! (reorder_channels ! c))))
                                [0..<4])
                           [0, 2, 4, 6])) 0)
                 [0..<8])))
          [0..<length x div 4])"
proof -
  define n where "n = length x div 4"
  have lx: "length x = 4 * n" using m4 by (auto simp add: n_def)
  define picked where "picked = map (\<lambda>row. map (\<lambda>j. row ! j) reorder_channels) x"
  define transposed where "transposed =
     map (\<lambda>g. map (\<lambda>c. map (\<lambda>row. row ! c) g) [0..<8])
       (map (\<lambda>k. take 4 (drop (4 * k) picked)) [0..<length picked div 4])"
  have lp: "length picked = 4 * n" by (simp add: picked_def lx)
  have pk: "picked ! r ! c = x ! r ! (reorder_channels ! c)" if "r < 4 * n" "c < 8" for r c
    using that by (simp add: picked_def lx length_reorder_channels)
  have tr: "transposed =
      map (\<lambda>k. map (\<lambda>c. map (\<lambda>i. x ! (4 * k + i) ! (reorder_channels ! c)) [0..<4]) [0..<8]) [0..<n]"
  proof -
    have "transposed =
        map (\<lambda>k. map (\<lambda>c. map (\<lambda>row. row ! c) (take 4 (drop (4 * k) picked))) [0..<8]) [0..<n]"
      by (simp add: transposed_def lp comp_def)
    also have "\<dots> =
        map (\<lambda>k. map (\<lambda>c. map (\<lambda>i. picked ! (4 * k + i) ! c) [0..<4]) [0..<8]) [0..<n]"
      by (rule map_cong[OF refl]) (simp add: take_drop_nth4 lp comp_def)
    also have "\<dots> =
        map (\<lambda>k. map (\<lambda>c. map (\<lambda>i. x ! (4 * k + i) ! (reorder_channels ! c)) [0..<4]) [0..<8]) [0..<n]"
      by (rule map_cong[OF refl], rule map_cong[OF refl], rule map_cong[OF refl])
         (simp add: pk)
    finally show ?thesis .
  qed
  have mem: "x ! (4 * k + i) ! (reorder_channels ! c) \<in> set (x ! (4 * k + i))"
    if "k < n" "i < 4" "c < 8" for k i c
  proof -
    have "reorder_channels ! c < 8"
      using that(3) by (auto simp add: reorder_channels_def less_Suc_eq numeral_eq_Suc)
    moreover have "length (x ! (4 * k + i)) = 8" using rows that lx by simp
    ultimately show ?thesis by simp
  qed
  have small: "unat (enc (x ! (4 * k + i) ! (reorder_channels ! c))) < 4"
    if "k < n" "i < 4" "c < 8" for k i c
  proof -
    have "4 * k + i < length x" using that lx by simp
    then have "x ! (4 * k + i) \<in> set x" by (rule nth_mem)
    then show ?thesis using codes mem[OF that] by blast
  qed
  define bitvalues where "bitvalues = map (map (map enc)) transposed"
  define bytes where "bytes =
     map (map (\<lambda>q. foldr (OR) q 0))
       (map (map (\<lambda>q. map (\<lambda>(b, s). push_bit s b) (zip q [0, 2, 4, 6])))
          (map (map (map (\<lambda>b. reorder_bits ! unat b))) bitvalues))"
  have bv: "bitvalues =
      map (\<lambda>k. map (\<lambda>c. map (\<lambda>i. enc (x ! (4 * k + i) ! (reorder_channels ! c))) [0..<4])
                    [0..<8]) [0..<n]"
    by (simp add: bitvalues_def tr comp_def)
  have ok: "(\<exists>g \<in> set bitvalues. \<exists>q \<in> set g. \<exists>b \<in> set q. 4 \<le> unat b) = False"
    unfolding bv using small by (auto simp add: not_le)
  have by_eq: "bytes =
      map (\<lambda>k. map (\<lambda>c. foldr (OR)
                   (map (\<lambda>(b, s). push_bit s b)
                      (zip (map (\<lambda>i. reorder_bits ! unat (enc (x ! (4 * k + i) ! (reorder_channels ! c))))
                                [0..<4])
                           [0, 2, 4, 6])) 0)
                 [0..<8]) [0..<n]"
    unfolding bytes_def bv by (simp add: comp_def)
  have l8: "\<forall>row \<in> set bytes. length row = 8"
    unfolding by_eq by auto
  have c1: "(\<exists>row \<in> set x. length row < 8) = False" using rows by auto
  have c2: "(length x mod 4 \<noteq> 0) = False" using m4 by simp
  have "encode_8chan_2bit_fanout4 bo enc x =
          Inr (map (reorder64 bo) (view_uint64 bo (concat bytes)))"
    unfolding encode_8chan_2bit_fanout4_def Let_def c1 c2 if_False
    unfolding picked_def[symmetric] transposed_def[symmetric] bitvalues_def[symmetric] ok if_False
      bytes_def[symmetric] ..
  also have "\<dots> = Inr (map (\<lambda>row. reorder64 bo (word_of_bytes bo row)) bytes)"
    by (simp add: view_uint64_concat[OF l8])
  finally show ?thesis
    unfolding by_eq n_def by (simp add: comp_def)
qed

lemma reorder_channels_twice:
  "c < 8 \<Longrightarrow> reorder_channels ! c < 8 \<and> reorder_channels ! (reorder_channels ! c) = c"
  by (auto simp add: reorder_channels_def less_Suc_eq numeral_eq_Suc)

lemma level_code:
  fixes enc :: "rat \<Rightarrow> 8 word"
  assumes "enc (- OPTIMAL_2BIT_HIGH) = 0" "enc (- 1) = 1" "enc 1 = 2" "enc OPTIMAL_2BIT_HIGH = 3"
      and "v \<in> {- OPTIMAL_2BIT_HIGH, - 1, 1, OPTIMAL_2BIT_HIGH}"
  shows "unat (enc v) < 4"
    and "unat (reorder_bits ! unat (enc v)) < 4"
    and "lut4level ! unat (reorder_bits ! unat (enc v)) = v"
  using assms(5)
  by (elim insertE emptyE; simp add: assms(1-4) reorder_bits_def lut4level_def)+

lemma rows_of_matrix:
  assumes "\<forall>row \<in> set x. length row = m"
  shows "map (\<lambda>t. map (\<lambda>c. x ! t ! c) [0..<m]) [0..<length x] = x"
proof -
  have "map (\<lambda>t. map (\<lambda>c. x ! t ! c) [0..<m]) [0..<length x] = map (\<lambda>t. x ! t) [0..<length x]"
  proof (rule map_cong[OF refl])
    fix t assume "t \<in> set [0..<length x]"
    then have "length (x ! t) = m" using assms by simp
    then show "map (\<lambda>c. x ! t ! c) [0..<m] = x ! t" by (metis map_nth)
  qed
  then show ?thesis by (simp add: map_nth)
qed

text \<open>
  Claim C1.  \<^verbatim>\<open>encode_2bit_real_base\<close> is not among the sources; it is the parameter
  \<open>enc\<close>, assumed to send the levels \<open>-3.3359, -1, +1, +3.3359\<close> to 0, 1, 2, 3.  For every
  array of shape \<open>(4n, 8)\<close> with all entries among the four levels the encoder returns
  words, and decoding them gives the array back, on either byte order.
\<close>

theorem codec_roundtrip:
  assumes enc: "enc (- OPTIMAL_2BIT_HIGH) = 0" "enc (- 1) = 1" "enc 1 = 2"
               "enc OPTIMAL_2BIT_HIGH = 3"
      and rows: "\<forall>row \<in> set x. length row = 8"
      and m4: "length x mod 4 = 0"
      and levels: "\<forall>row \<in> set x. \<forall>v \<in> set row.
                     v \<in> {- OPTIMAL_2BIT_HIGH, - 1, 1, OPTIMAL_2BIT_HIGH}"
  shows "\<exists>ws. encode_8chan_2bit_fanout4 bo enc x = Inr ws \<and>
              decode_8chan_2bit_fanout4 bo ws = x"
proof -
  define n where "n = length x div 4"
  have lx: "length x = 4 * n" using m4 by (auto simp add: n_def)
  define B where "B = (\<lambda>k c. foldr (OR)
                   (map (\<lambda>(b, s). push_bit s b)
                      (zip (map (\<lambda>i. reorder_bits ! unat (enc (x ! (4 * k + i) ! (reorder_channels ! c))))
                                [0..<4])
                           [0, 2, 4, 6])) (0 :: 8 word))"
  define ws where "ws = map (\<lambda>k. reorder64 bo (word_of_bytes bo (map (B k) [0..<8]))) [0..<n]"
  have lev: "x ! t ! c \<in> {- OPTIMAL_2BIT_HIGH, - 1, 1, OPTIMAL_2BIT_HIGH}"
    if "t < 4 * n" "c < 8" for t c
  proof -
    have "x ! t \<in> set x" using that(1) lx by simp
    moreover from this have "x ! t ! c \<in> set (x ! t)" using rows that(2) by simp
    ultimately show ?thesis using levels by blast
  qed
  have codes: "\<forall>row \<in> set x. \<forall>v \<in> set row. unat (enc v) < 4"
    using levels level_code(1)[OF enc] by blast
  have e: "encode_8chan_2bit_fanout4 bo enc x = Inr ws"
    unfolding ws_def B_def n_def by (rule encode_explicit[OF rows m4 codes])
  have up4: "[0..<4] = [0, 1, 2, 3]" by (simp add: upt_rec numeral_eq_Suc)
  have lws: "length ws = n" by (simp add: ws_def)
  have el: "lut2bit1 (view_uint8 bo (reorder64 bo (ws ! (t div 4))) ! (reorder_channels ! c))
              ! (t mod 4) = x ! t ! c"
    if t: "t < 4 * n" and c: "c < 8" for t c
  proof -
    define k where "k = t div 4"
    have k: "k < n" using t by (auto simp add: k_def)
    have tk: "4 * k + t mod 4 = t" by (simp add: k_def)
    define Q where "Q = (\<lambda>i. reorder_bits ! unat (enc (x ! (4 * k + i) ! c)))"
    have rc: "reorder_channels ! c < 8" "reorder_channels ! (reorder_channels ! c) = c"
      using reorder_channels_twice[OF c] by simp_all
    have "view_uint8 bo (reorder64 bo (ws ! k)) = map (B k) [0..<8]"
      using k by (simp add: ws_def reorder64_twice view_uint8_word_of_bytes)
    then have "view_uint8 bo (reorder64 bo (ws ! k)) ! (reorder_channels ! c) =
        B k (reorder_channels ! c)"
      using rc(1) by simp
    also have "lut2bit1 (B k (reorder_channels ! c)) =
        map (\<lambda>i. lut4level ! unat (Q i)) [0..<4]"
    proof -
      have "B k (reorder_channels ! c) =
          foldr (OR) (map (\<lambda>(b, s). push_bit s b) (zip [Q 0, Q 1, Q 2, Q 3] [0, 2, 4, 6])) 0"
        unfolding B_def rc(2) up4 Q_def by simp
      moreover have "unat (Q i) < 4" if "i < 4" for i
        unfolding Q_def using k c that lev[of "4 * k + i" c] level_code(2)[OF enc] by simp
      ultimately show ?thesis
        using lut2bit1_byte[of "Q 0" "Q 1" "Q 2" "Q 3"] unfolding up4 by simp
    qed
    finally have "lut2bit1 (view_uint8 bo (reorder64 bo (ws ! k)) ! (reorder_channels ! c)) ! (t mod 4)
        = lut4level ! unat (Q (t mod 4))"
      by simp
    also have "\<dots> = lut4level ! unat (reorder_bits ! unat (enc (x ! t ! c)))"
      unfolding Q_def tk ..
    also have "\<dots> = x ! t ! c"
      by (rule level_code(3)[OF enc lev[OF t c]])
    finally show ?thesis unfolding k_def .
  qed
  have "decode_8chan_2bit_fanout4 bo ws = map (\<lambda>t. map (\<lambda>c. x ! t ! c) [0..<8]) [0..<4 * n]"
    unfolding decode_nth lws
    by (rule map_cong[OF refl], rule map_cong[OF refl]) (simp add: el)
  also have "\<dots> = x"
    using rows_of_matrix[OF rows] by (simp add: lx)
  finally show ?thesis using e by blast
qed

text \<open>
  The theorem of claim C1 on one array of shape \<open>(4, 8)\<close>, with the encoder of single
  samples that picks the nearest level.
\<close>

theorem codec_roundtrip_witness:
  "(let h = OPTIMAL_2BIT_HIGH;
        x = [[1, - 1, 1, 1, - 1, 1, h, - h],
             [1, 1, 1, 1, - 1, 1, - h, - h],
             [- 1, - 1, 1, h, - 1, 1, h, - h],
             [1, - 1, - 1, 1, - 1, - 1, h, 1]]
    in encode_8chan_2bit_fanout4 Little nearest_level_index x = Inr [4653898067021303919] \<and>
       decode_8chan_2bit_fanout4 Little [4653898067021303919] = x)"
proof -
  define h where "h = OPTIMAL_2BIT_HIGH"
  define x where "x = [[1, - 1, 1, 1, - 1, 1, h, - h],
             [1, 1, 1, 1, - 1, 1, - h, - h],
             [- 1, - 1, 1, h, - 1, 1, h, - h],
             [1, - 1, - 1, 1, - 1, - 1, h, 1]]"
  have codes: "nearest_level_index (- OPTIMAL_2BIT_HIGH) = 0" "nearest_level_index (- 1) = 1"
      "nearest_level_index 1 = 2" "nearest_level_index OPTIMAL_2BIT_HIGH = 3"
    by (simp_all add: nearest_level_index_def OPTIMAL_2BIT_HIGH_def)
  have e: "encode_8chan_2bit_fanout4 Little nearest_level_index x = Inr [4653898067021303919]"
    unfolding x_def h_def by code_simp
  obtain ws where ws: "encode_8chan_2bit_fanout4 Little nearest_level_index x = Inr ws"
      "decode_8chan_2bit_fanout4 Little ws = x"
    using codec_roundtrip[of nearest_level_index x Little, OF codes]
    by (auto simp add: x_def h_def)
  have "ws = [4653898067021303919]" using ws(1) e by simp
  then show ?thesis using ws(2) e unfolding Let_def x_def h_def by simp
qed

(*THMS*)

end
